theory Spec2Isabelle
  imports Complex_Main "HOL-Library.AList" "HOL-Library.Multiset"
begin

section \<open>Garden simulator: cultivation and spatial-economy engine\<close>

text \<open>
  A shallow embedding of the simulation core of \<^verbatim>\<open>main.py\<close>: plant types, plants and
  their growth, footprints, the tile map, the player's tools, the shop's price table and
  purchases, and the planting and harvesting transactions of the game world.

  Conventions of the embedding.
  \<^item> Python \<^verbatim>\<open>float\<close> values (money, times, multipliers) are modelled as exact reals:
    rounding of binary floating point is outside the model, and no property below is
    about the exact clock reading at which a threshold is crossed.
  \<^item> The wall clock \<^verbatim>\<open>time.time()\<close> is an explicit argument \<open>now\<close> of every function
    that reads it.
  \<^item> Python exceptions are values of type \<open>error\<close>, returned as \<open>Inl\<close>.
  \<^item> Colours and everything else that only the drawing code reads are left out of the
    records.
\<close>

datatype error = IndexError | KeyError | ZeroDivisionError | TypeError

subsection \<open>Plant types and plants\<close>

text \<open>
  \<^verbatim>\<open>PlantType.__init__\<close>: \<open>size\<close> (here \<open>size_wh\<close>) defaults to \<open>(1, 1)\<close> and \<open>shape\<close> to
  \<open>'rectangle'\<close>. The sell value is whatever \<^verbatim>\<open>calculate_sell_value\<close> returned, which is
  \<^verbatim>\<open>None\<close> for a cost missing from the table, hence an option.
\<close>

record PlantType =
  name :: string
  seed_cost :: real
  sell_value :: "real option"
  growth_time :: real
  size_wh :: "int \<times> int"
  shape :: string

definition mk_PlantType :: "string \<Rightarrow> real \<Rightarrow> real option \<Rightarrow> real \<Rightarrow> int \<times> int \<Rightarrow> PlantType" where
  "mk_PlantType n c v t sz =
     \<lparr>name = n, seed_cost = c, sell_value = v, growth_time = t, size_wh = sz,
      shape = ''rectangle''\<rparr>"

datatype PlantGrowthStage = SEED | SPROUT | YOUNG | MATURE | HARVESTABLE

fun stage_value :: "PlantGrowthStage \<Rightarrow> nat" where
  "stage_value SEED = 0"
| "stage_value SPROUT = 1"
| "stage_value YOUNG = 2"
| "stage_value MATURE = 3"
| "stage_value HARVESTABLE = 4"

record Plant =
  plant_type :: PlantType
  plant_x :: int
  plant_y :: int
  planted_time :: real
  stage :: PlantGrowthStage
  harvestable :: bool
  time_remaining :: real
  last_update :: real

definition Plant_init :: "PlantType \<Rightarrow> int \<Rightarrow> int \<Rightarrow> real \<Rightarrow> Plant" where
  "Plant_init pt x y now =
     \<lparr>plant_type = pt, plant_x = x, plant_y = y, planted_time = now, stage = SEED,
      harvestable = False, time_remaining = growth_time pt, last_update = now\<rparr>"

text \<open>
  \<^verbatim>\<open>Plant.update\<close>. The division by \<open>growth_time\<close> raises \<^verbatim>\<open>ZeroDivisionError\<close> when
  the plant type has growth time 0.
\<close>

definition Plant_update :: "Plant \<Rightarrow> real \<Rightarrow> real \<Rightarrow> real \<Rightarrow> string \<Rightarrow> error + Plant" where
  "Plant_update p now weather_multiplier fertilizer_multiplier tile_type =
     (if harvestable p then Inr p
      else
        let elapsed = now - last_update p;
            soil_multiplier = (if tile_type = ''soil'' then 1.1 else 1.0);
            total_multiplier = weather_multiplier * fertilizer_multiplier * soil_multiplier;
            time_reduction = elapsed * total_multiplier;
            tr = max 0 (time_remaining p - time_reduction)
        in if growth_time (plant_type p) = 0 then Inl ZeroDivisionError
           else
             let progress = 1.0 - tr / growth_time (plant_type p);
                 p1 = p\<lparr>time_remaining := tr, last_update := now\<rparr>
             in Inr (if tr \<le> 0 then p1\<lparr>stage := HARVESTABLE, harvestable := True\<rparr>
                     else if progress \<ge> 0.8 then p1\<lparr>stage := MATURE\<rparr>
                     else if progress \<ge> 0.5 then p1\<lparr>stage := YOUNG\<rparr>
                     else if progress \<ge> 0.2 then p1\<lparr>stage := SPROUT\<rparr>
                     else p1\<lparr>stage := SEED\<rparr>))"

text \<open>
  The plant states the program can produce: a plant is created by the constructor, from a
  plant type with a positive growth time (every seed of the catalogue has one), and then
  only changed by \<open>Plant_update\<close>, with a clock that does not run backwards and
  multipliers that are not negative.
\<close>

inductive cultivar :: "Plant \<Rightarrow> bool" where
  planted: "0 < growth_time pt \<Longrightarrow> cultivar (Plant_init pt x y now)"
| grown: "cultivar p \<Longrightarrow> last_update p \<le> now \<Longrightarrow> 0 \<le> wm \<Longrightarrow> 0 \<le> fm \<Longrightarrow>
          Plant_update p now wm fm tt = Inr p' \<Longrightarrow> cultivar p'"

text \<open>\<^verbatim>\<open>range(n)\<close> and \<^verbatim>\<open>range(a, b)\<close> on integers; both are empty when the bound is not above the start.\<close>

definition py_range :: "int \<Rightarrow> int list" where
  "py_range n = [0..n - 1]"

definition py_range2 :: "int \<Rightarrow> int \<Rightarrow> int list" where
  "py_range2 a b = [a..b - 1]"

text \<open>\<^verbatim>\<open>Plant.get_occupied_tiles\<close>; \<open>//\<close> is floor division, as \<open>div\<close> on \<open>int\<close>.\<close>

definition star_points :: "(int \<times> int) list" where
  "star_points = [(1,0), (0,1), (2,1), (0,2), (2,2), (1,1), (1,2)]"

definition get_occupied_tiles :: "Plant \<Rightarrow> (int \<times> int) list" where
  "get_occupied_tiles p =
     (let w = fst (size_wh (plant_type p)); h = snd (size_wh (plant_type p)) in
      if shape (plant_type p) = ''rectangle'' then
        concat (map (\<lambda>dy. map (\<lambda>dx. (plant_x p + dx, plant_y p + dy)) (py_range w)) (py_range h))
      else if shape (plant_type p) = ''circle'' then
        (let center_x = plant_x p + w div 2; center_y = plant_y p + h div 2;
             radius = min w h div 2
         in concat (map (\<lambda>dy. map (\<lambda>dx. (center_x + dx, center_y + dy))
                                 (filter (\<lambda>dx. dx * dx + dy * dy \<le> radius * radius)
                                         (py_range2 (- radius) (radius + 1))))
                        (py_range2 (- radius) (radius + 1))))
      else if shape (plant_type p) = ''star'' then
        map (\<lambda>(dx, dy). (plant_x p + dx, plant_y p + dy)) star_points
      else if shape (plant_type p) = ''curved'' then
        (let corners = [(0, 0), (w - 1, 0), (0, h - 1), (w - 1, h - 1)]
         in concat (map (\<lambda>dy. map (\<lambda>dx. (plant_x p + dx, plant_y p + dy))
                                 (filter (\<lambda>dx. (dx, dy) \<notin> set corners) (py_range w)))
                        (py_range h)))
      else [])"

subsection \<open>Python lists and dictionaries\<close>

text \<open>
  \<^verbatim>\<open>xs[i]\<close>: a negative index counts from the end, an index out of range raises
  \<^verbatim>\<open>IndexError\<close>.
\<close>

definition py_index :: "'a list \<Rightarrow> int \<Rightarrow> error + 'a" where
  "py_index xs i =
     (if 0 \<le> i \<and> i < int (length xs) then Inr (xs ! nat i)
      else if i < 0 \<and> - int (length xs) \<le> i then Inr (xs ! nat (int (length xs) + i))
      else Inl IndexError)"

text \<open>
  A dictionary whose iteration order matters is an association list in insertion order:
  \<open>AList.update\<close> overwrites in place or appends, \<open>AList.delete\<close> removes the key.
  \<^verbatim>\<open>d.get(k, 0)\<close> is \<open>dict_get0\<close>.
\<close>

definition dict_get0 :: "('k \<times> int) list \<Rightarrow> 'k \<Rightarrow> int" where
  "dict_get0 d k = (case map_of d k of None \<Rightarrow> 0 | Some v \<Rightarrow> v)"

text \<open>\<^verbatim>\<open>dict(zip(keys, values))\<close>: the pairs are inserted in order, a later pair overwrites.\<close>

definition dict_zip :: "'k list \<Rightarrow> 'v list \<Rightarrow> ('k \<rightharpoonup> 'v)" where
  "dict_zip ks vs = foldl (\<lambda>m (k, v). m(k \<mapsto> v)) Map.empty (zip ks vs)"

subsection \<open>Inventory and player\<close>

record Inventory =
  seeds :: "(string \<times> int) list"
  items :: "(string \<times> int) list"

definition Inventory_init :: Inventory where
  "Inventory_init = \<lparr>seeds = [], items = []\<rparr>"

definition add_seeds :: "Inventory \<Rightarrow> string \<Rightarrow> int \<Rightarrow> Inventory" where
  "add_seeds iv plant_name quantity =
     iv\<lparr>seeds := AList.update plant_name (dict_get0 (seeds iv) plant_name + quantity) (seeds iv)\<rparr>"

definition use_seed :: "Inventory \<Rightarrow> string \<Rightarrow> bool \<times> Inventory" where
  "use_seed iv plant_name =
     (if dict_get0 (seeds iv) plant_name > 0 then
        (let n = dict_get0 (seeds iv) plant_name - 1 in
         if n = 0 then (True, iv\<lparr>seeds := AList.delete plant_name (seeds iv)\<rparr>)
         else (True, iv\<lparr>seeds := AList.update plant_name n (seeds iv)\<rparr>))
      else (False, iv))"

definition add_item :: "Inventory \<Rightarrow> string \<Rightarrow> int \<Rightarrow> Inventory" where
  "add_item iv item_name quantity =
     iv\<lparr>items := AList.update item_name (dict_get0 (items iv) item_name + quantity) (items iv)\<rparr>"

record Player =
  pos_x :: real
  pos_y :: real
  money :: real
  inventory :: Inventory
  fertilizer_level :: int
  hoe_level :: int
  shovel_level :: int

definition TILE_SIZE :: int where "TILE_SIZE = 48"
definition MAP_WIDTH :: int where "MAP_WIDTH = 150"
definition MAP_HEIGHT :: int where "MAP_HEIGHT = 150"

definition Player_init :: "real \<Rightarrow> real \<Rightarrow> Player" where
  "Player_init x0 y0 =
     \<lparr>pos_x = x0, pos_y = y0, money = 10.0, inventory = Inventory_init,
      fertilizer_level = 0, hoe_level = 0, shovel_level = 0\<rparr>"

text \<open>
  The class body of \<^verbatim>\<open>Player\<close> defines \<^verbatim>\<open>get_fertilizer_multiplier\<close> twice (lines 269
  and 284). A class body is executed top to bottom and each \<^verbatim>\<open>def\<close> binds its name in
  the class namespace, so the namespace is the dictionary built from the definitions in
  source order, and a call looks the name up there.
\<close>

definition get_fertilizer_multiplier_line269 :: "Player \<Rightarrow> error + real" where
  "get_fertilizer_multiplier_line269 p = py_index [1.0, 2.5, 50.0, 500.0] (fertilizer_level p)"

definition get_fertilizer_multiplier_line284 :: "Player \<Rightarrow> error + real" where
  "get_fertilizer_multiplier_line284 p = py_index [1.0, 2.0, 10.0, 100.0] (fertilizer_level p)"

definition Player_class_body :: "(string \<times> (Player \<Rightarrow> error + real)) list" where
  "Player_class_body =
     [(''get_fertilizer_multiplier'', get_fertilizer_multiplier_line269),
      (''get_fertilizer_multiplier'', get_fertilizer_multiplier_line284)]"

definition class_namespace :: "(string \<times> 'f) list \<Rightarrow> (string \<rightharpoonup> 'f)" where
  "class_namespace body = foldl (\<lambda>m (k, f). m(k \<mapsto> f)) Map.empty body"

definition get_fertilizer_multiplier :: "Player \<Rightarrow> error + real" where
  "get_fertilizer_multiplier p =
     (case class_namespace Player_class_body ''get_fertilizer_multiplier'' of
        None \<Rightarrow> Inl KeyError
      | Some f \<Rightarrow> f p)"

definition get_planting_range :: "Player \<Rightarrow> error + int" where
  "get_planting_range p = py_index [2, 8, 20, 100] (hoe_level p)"

definition get_harvest_range :: "Player \<Rightarrow> error + int" where
  "get_harvest_range p = py_index [1, 4, 8, 15] (shovel_level p)"

text \<open>\<^verbatim>\<open>int(self.x // TILE_SIZE)\<close>: floor division of a float, then truncation of a whole number.\<close>

definition get_tile_position :: "Player \<Rightarrow> int \<times> int" where
  "get_tile_position p = (\<lfloor>pos_x p / real_of_int TILE_SIZE\<rfloor>, \<lfloor>pos_y p / real_of_int TILE_SIZE\<rfloor>)"

subsection \<open>The tile map\<close>

text \<open>
  \<^verbatim>\<open>Map.generate_map\<close>. The terrain noise is a floating-point expression of
  \<^verbatim>\<open>math.sin\<close> and \<^verbatim>\<open>math.cos\<close>; its value at a cell is the parameter \<open>noise x y\<close>.
  The water border and the selling block do not depend on it.
\<close>

record Map =
  width :: int
  height :: int
  tiles :: "string list list"

definition generate_tile :: "(int \<Rightarrow> int \<Rightarrow> real) \<Rightarrow> int \<Rightarrow> int \<Rightarrow> int \<Rightarrow> int \<Rightarrow> string" where
  "generate_tile noise wd ht x y =
     (let center_x = MAP_WIDTH div 2; center_y = MAP_HEIGHT div 2 in
      if x < 8 \<or> x \<ge> wd - 8 \<or> y < 8 \<or> y \<ge> ht - 8 then ''water''
      else if \<bar>x - center_x\<bar> \<le> 2 \<and> \<bar>y - center_y\<bar> \<le> 2 then ''sell_area''
      else
        let noise_val = noise x y in
        if noise_val < - 0.3 then ''water''
        else if noise_val < 0.1 then ''soil''
        else if noise_val < 0.5 then ''grass''
        else ''stone'')"

definition generate_map :: "(int \<Rightarrow> int \<Rightarrow> real) \<Rightarrow> int \<Rightarrow> int \<Rightarrow> string list list" where
  "generate_map noise wd ht =
     map (\<lambda>y. map (\<lambda>x. generate_tile noise wd ht x y) (py_range wd)) (py_range ht)"

definition Map_init :: "(int \<Rightarrow> int \<Rightarrow> real) \<Rightarrow> Map" where
  "Map_init noise =
     \<lparr>width = MAP_WIDTH, height = MAP_HEIGHT, tiles = generate_map noise MAP_WIDTH MAP_HEIGHT\<rparr>"

text \<open>\<^verbatim>\<open>self.tiles[y][x]\<close>\<close>

definition tile_at :: "Map \<Rightarrow> int \<Rightarrow> int \<Rightarrow> error + string" where
  "tile_at m x y =
     (case py_index (tiles m) y of
        Inl e \<Rightarrow> Inl e
      | Inr row \<Rightarrow> py_index row x)"

definition is_walkable :: "Map \<Rightarrow> int \<Rightarrow> int \<Rightarrow> error + bool" where
  "is_walkable m x y =
     (if x < 0 \<or> x \<ge> width m \<or> y < 0 \<or> y \<ge> height m then Inr False
      else case tile_at m x y of Inl e \<Rightarrow> Inl e | Inr t \<Rightarrow> Inr (t \<noteq> ''water''))"

definition is_tillable :: "Map \<Rightarrow> int \<Rightarrow> int \<Rightarrow> error + bool" where
  "is_tillable m x y =
     (if x < 0 \<or> x \<ge> width m \<or> y < 0 \<or> y \<ge> height m then Inr False
      else case tile_at m x y of Inl e \<Rightarrow> Inl e | Inr t \<Rightarrow> Inr (t \<in> set [''soil'', ''grass'']))"

definition is_sell_area :: "Map \<Rightarrow> int \<Rightarrow> int \<Rightarrow> error + bool" where
  "is_sell_area m x y =
     (case tile_at m x y of Inl e \<Rightarrow> Inl e | Inr t \<Rightarrow> Inr (t = ''sell_area''))"

subsection \<open>Strings\<close>

text \<open>\<^verbatim>\<open>sub in s\<close> on strings: \<open>sub\<close> occurs in \<open>s\<close> as a contiguous piece.\<close>

fun starts_with :: "string \<Rightarrow> string \<Rightarrow> bool" where
  "starts_with s [] = True"
| "starts_with [] (c # cs) = False"
| "starts_with (a # as) (c # cs) = (a = c \<and> starts_with as cs)"

fun str_contains :: "string \<Rightarrow> string \<Rightarrow> bool" where
  "str_contains [] sub = (sub = [])"
| "str_contains (a # as) sub = (starts_with (a # as) sub \<or> str_contains as sub)"

text \<open>
  \<^verbatim>\<open>s.split()[0]\<close>: the first run of characters that are not white space;
  \<^verbatim>\<open>IndexError\<close> when there is none. A \<open>char\<close> stands for a code point below 256;
  the white space of \<^verbatim>\<open>str.split\<close> there is 9 to 13, 28 to 32, 133 and 160.
\<close>

definition is_space :: "char \<Rightarrow> bool" where
  "is_space c =
     (c \<in> set [CHR 0x09, CHR 0x0A, CHR 0x0B, CHR 0x0C, CHR 0x0D,
                CHR 0x1C, CHR 0x1D, CHR 0x1E, CHR 0x1F, CHR 0x20, CHR 0x85, CHR 0xA0])"

definition first_word :: "string \<Rightarrow> error + string" where
  "first_word s =
     (let w = takeWhile (\<lambda>c. \<not> is_space c) (dropWhile is_space s)
      in if w = [] then Inl IndexError else Inr w)"

subsection \<open>The shop: price table and catalogue\<close>

definition sell_keys :: "real list" where
  "sell_keys =
     [1, 2, 3, 5, 8, 15, 20, 25, 30, 35, 40, 50,
      60, 80, 100, 120, 150, 180, 200, 250, 280, 300,
      320, 350, 380, 400, 420, 450, 480, 500, 500, 750,
      1000, 1250, 1500, 1750, 2000, 2250, 2500, 2750, 3000,
      3250, 3500, 3750, 4000, 4250, 4500, 4750, 5000, 5000,
      10000, 15000, 20000, 25000, 30000, 35000, 40000, 45000,
      50000, 55000, 60000, 65000, 70000, 75000, 80000, 85000,
      90000, 95000, 100000, 200000, 1000000, 3000000, 5000000, 10000000]"

definition sell_values :: "real list" where
  "sell_values =
     [1.01, 2.06, 3.10, 6.30, 11, 26, 32, 40, 40, 55, 52, 68,
      68, 120, 130, 228, 250, 240, 320, 411, 515, 570,
      614, 676, 737, 780, 882, 945, 1027, 1080, 1090, 1725,
      2350, 3063, 3720, 4393, 5000, 5648, 6425, 7233, 7950,
      8938, 9730, 10463, 11240, 11985, 12780, 13538, 14450,
      14750, 30000, 45750, 68000, 90000, 113700, 136500, 160000,
      184500, 210000, 236500, 261000, 284050, 308000, 331500,
      355200, 379100, 403200, 427500, 451000, 1200000, 7000000,
      25500000, 500000000, 12000000000]"

text \<open>
  \<^verbatim>\<open>Shop.calculate_sell_value\<close> returns \<^verbatim>\<open>library.get(seed_cost)\<close>: the table's value,
  or \<^verbatim>\<open>None\<close> when the cost is not a key. The growth time is not used.
\<close>

definition calculate_sell_value :: "real \<Rightarrow> real \<Rightarrow> real option" where
  "calculate_sell_value cost gt = dict_zip sell_keys sell_values cost"

definition common_data :: "(string \<times> real \<times> real) list" where
  "common_data =
     [(''Radish'', 1, 5),
      (''Lettuce'', 2, 6),
      (''Spinach'', 3, 4),
      (''Herbs'', 5, 7),
      (''Green Onion'', 8, 8),
      (''Carrot'', 15, 15),
      (''Tomato'', 20, 20),
      (''Potato'', 25, 25),
      (''Corn'', 30, 30),
      (''Broccoli'', 35, 35),
      (''Cabbage'', 40, 40),
      (''Pepper'', 50, 45),
      (''Cucumber'', 60, 50),
      (''Eggplant'', 80, 60),
      (''Sunflower'', 100, 70),
      (''Pumpkin'', 120, 80),
      (''Strawberry'', 150, 90),
      (''Blueberry'', 180, 100),
      (''Apple Tree'', 200, 120),
      (''Orange Tree'', 250, 140),
      (''Cherry Tree'', 280, 160),
      (''Peach Tree'', 300, 180),
      (''Pear Tree'', 320, 200),
      (''Grape Vine'', 350, 220),
      (''Avocado Tree'', 380, 240),
      (''Mango Tree'', 400, 260),
      (''Coconut Palm'', 420, 280),
      (''Lemon Tree'', 450, 300),
      (''Lime Tree'', 480, 320),
      (''Banana Tree'', 500, 340)]"

definition rare_sizes :: "(int \<times> int) list" where
  "rare_sizes = [(3, 3), (2, 1), (3, 2), (3, 1)]"

definition rare_data :: "(string \<times> real \<times> real) list" where
  "rare_data =
     [(''Dragon Fruit'', 500, 360),
      (''Golden Apple'', 750, 420),
      (''Rainbow Rose'', 1000, 480),
      (''Crystal Lotus'', 1250, 540),
      (''Starfruit'', 1500, 600),
      (''Phoenix Flower'', 1750, 660),
      (''Moonberry'', 2000, 720),
      (''Thunder Melon'', 2250, 780),
      (''Ice Mint'', 2500, 840),
      (''Fire Pepper'', 2750, 900),
      (''Wind Blossom'', 3000, 960),
      (''Solar Orchid'', 3250, 1020),
      (''Storm Lily'', 3500, 1080),
      (''Earth Root'', 3750, 1140),
      (''Void Berry'', 4000, 1200),
      (''Light Sage'', 4250, 1260),
      (''Shadow Thorn'', 4500, 1320),
      (''Time Blossom'', 4750, 1380),
      (''Space Fruit'', 5000, 1440)]"

definition mythic_sizes :: "(int \<times> int) list" where
  "mythic_sizes = [(1, 1), (2, 1), (1, 2), (2, 2), (3, 1), (1, 3), (3, 3), (4, 3), (3, 4)]"

definition mythic_data :: "(string \<times> real \<times> real) list" where
  "mythic_data =
     [(''Eternal Fruit'', 5000, 1800),
      (''Mystic Herb'', 10000, 2400),
      (''Cosmic Berry'', 15000, 3000),
      (''Divine Rose'', 20000, 3600),
      (''Celestial Apple'', 25000, 4200),
      (''Quantum Melon'', 30000, 4800),
      (''Infinity Bloom'', 35000, 5400),
      (''Galaxy Grape'', 40000, 6000),
      (''Universe Berry'', 45000, 6600),
      (''Reality Stone Fruit'', 50000, 7200),
      (''Time Crystal Plant'', 55000, 7800),
      (''Power Gem Flower'', 60000, 8400),
      (''Mind Stone Herb'', 65000, 9000),
      (''Soul Stone Berry'', 70000, 9600),
      (''Space Stone Vine'', 75000, 10200),
      (''Dimensional Fruit'', 80000, 10800),
      (''Multiverse Bloom'', 85000, 11400),
      (''Omniversal Plant'', 90000, 12000),
      (''Creator Seed'', 95000, 12600),
      (''God Tier Fruit'', 100000, 13200)]"

definition legendary_data :: "(string \<times> real \<times> real) list" where
  "legendary_data =
     [(''World Tree Sapling'', 200000, 14400),
      (''Universe Heart'', 1000000, 25600),
      (''Infinity Garden'', 3000000, 106800),
      (''Creation Essence'', 5000000, 280000),
      (''Omnipotent Bloom'', 10000000, 1900200)]"

text \<open>
  \<^verbatim>\<open>random.choice(seq)\<close> returns \<open>seq[k]\<close> for a random \<open>k\<close> below \<open>len(seq)\<close>. The
  random source is the parameter \<open>rnd\<close>: the \<open>i\<close>-th call of \<^verbatim>\<open>random.choice\<close> made while
  the catalogue is built draws \<open>rnd i\<close>.
\<close>

definition random_choice :: "'a list \<Rightarrow> nat \<Rightarrow> 'a" where
  "random_choice xs r = xs ! (r mod length xs)"

text \<open>
  One category's dictionary, filled in the order of its data; \<open>sz i\<close> is the size given
  to the \<open>i\<close>-th entry. No entry passes a shape, so each gets the default.
\<close>

definition build_plants :: "(nat \<Rightarrow> int \<times> int) \<Rightarrow> (string \<times> real \<times> real) list \<Rightarrow> (string \<times> PlantType) list" where
  "build_plants sz data =
     foldl (\<lambda>d (i, (n, cost, t)).
              AList.update n (mk_PlantType n cost (calculate_sell_value cost t) t (sz i)) d)
           [] (enumerate 0 data)"

definition tools :: "(string \<times> PlantType) list" where
  "tools =
     [(''Iron Fertilizer'', mk_PlantType ''Iron Fertilizer'' 10000 (Some 0) 0 (1, 1)),
      (''Gold Fertilizer'', mk_PlantType ''Gold Fertilizer'' 150000 (Some 0) 0 (1, 1)),
      (''Diamond Fertilizer'', mk_PlantType ''Diamond Fertilizer'' 2500000 (Some 0) 0 (1, 1)),
      (''Iron Hoe'', mk_PlantType ''Iron Hoe'' 5000 (Some 0) 0 (1, 1)),
      (''Gold Hoe'', mk_PlantType ''Gold Hoe'' 50000 (Some 0) 0 (1, 1)),
      (''Diamond Hoe'', mk_PlantType ''Diamond Hoe'' 250000 (Some 0) 0 (1, 1)),
      (''Iron Shovel'', mk_PlantType ''Iron Shovel'' 20000 (Some 0) 0 (1, 1)),
      (''Gold Shovel'', mk_PlantType ''Gold Shovel'' 100000 (Some 0) 0 (1, 1)),
      (''Diamond Shovel'', mk_PlantType ''Diamond Shovel'' 500000 (Some 0) 0 (1, 1))]"

definition create_plant_categories :: "(nat \<Rightarrow> nat) \<Rightarrow> (string \<times> (string \<times> PlantType) list) list" where
  "create_plant_categories rnd =
     [(''COMMON SEEDS'', build_plants (\<lambda>i. (1, 1)) common_data),
      (''RARE SEEDS'', build_plants (\<lambda>i. random_choice rare_sizes (rnd i)) rare_data),
      (''MYTHIC SEEDS'',
         build_plants (\<lambda>i. random_choice mythic_sizes (rnd (length rare_data + i))) mythic_data),
      (''LEGENDARY SEEDS'', build_plants (\<lambda>i. (4, 4)) legendary_data),
      (''TOOLS'', tools)]"

record Shop =
  plant_categories :: "(string \<times> (string \<times> PlantType) list) list"

definition Shop_init :: "(nat \<Rightarrow> nat) \<Rightarrow> Shop" where
  "Shop_init rnd = \<lparr>plant_categories = create_plant_categories rnd\<rparr>"

text \<open>\<^verbatim>\<open>Shop.get_all_plant_types\<close>: \<^verbatim>\<open>all_plants.update(category['plants'])\<close> for each category in order.\<close>

definition dict_update_all :: "('k \<times> 'v) list \<Rightarrow> ('k \<times> 'v) list \<Rightarrow> ('k \<times> 'v) list" where
  "dict_update_all d new = foldl (\<lambda>d (k, v). AList.update k v d) d new"

definition get_all_plant_types :: "Shop \<Rightarrow> (string \<times> PlantType) list" where
  "get_all_plant_types sh = foldl (\<lambda>d (cname, ps). dict_update_all d ps) [] (plant_categories sh)"

text \<open>
  \<^verbatim>\<open>Shop.buy_seeds\<close>, returning the flag and the player after the purchase. The last
  \<^verbatim>\<open>elif 'Shovel' in plant_name\<close> of the source is the only case left once the \<^verbatim>\<open>any\<close>
  test has passed and the two earlier tests have failed.
\<close>

definition level_map :: "(string \<times> int) list" where
  "level_map = [(''Iron'', 1), (''Gold'', 2), (''Diamond'', 3)]"

definition buy_seeds :: "Shop \<Rightarrow> Player \<Rightarrow> string \<Rightarrow> int \<Rightarrow> error + (bool \<times> Player)" where
  "buy_seeds sh player plant_name quantity =
     (let all_plants = get_all_plant_types sh in
      case map_of all_plants plant_name of
        None \<Rightarrow> Inr (False, player)
      | Some pt \<Rightarrow>
          if list_ex (\<lambda>tool. str_contains plant_name tool) [''Fertilizer'', ''Hoe'', ''Shovel''] then
            (let tool_type = (if str_contains plant_name ''Fertilizer'' then ''fertilizer''
                              else if str_contains plant_name ''Hoe'' then ''hoe''
                              else ''shovel'');
                 current_level = (if str_contains plant_name ''Fertilizer'' then fertilizer_level player
                                  else if str_contains plant_name ''Hoe'' then hoe_level player
                                  else shovel_level player)
             in case first_word plant_name of
                  Inl e \<Rightarrow> Inl e
                | Inr level_name \<Rightarrow>
                    (case map_of level_map level_name of
                       None \<Rightarrow> Inl KeyError
                     | Some required_level \<Rightarrow>
                         if current_level \<ge> required_level then Inr (False, player)
                         else if current_level \<noteq> required_level - 1 then Inr (False, player)
                         else
                           let total_cost = seed_cost pt in
                           if money player \<ge> total_cost then
                             (let player1 = player\<lparr>money := money player - total_cost\<rparr> in
                              Inr (True,
                                   if tool_type = ''fertilizer'' then player1\<lparr>fertilizer_level := required_level\<rparr>
                                   else if tool_type = ''hoe'' then player1\<lparr>hoe_level := required_level\<rparr>
                                   else player1\<lparr>shovel_level := required_level\<rparr>))
                           else Inr (False, player)))
          else
            (let total_cost = seed_cost pt * real_of_int quantity in
             if money player \<ge> total_cost then
               Inr (True, player\<lparr>money := money player - total_cost,
                                 inventory := add_seeds (inventory player) plant_name quantity\<rparr>)
             else Inr (False, player)))"

subsection \<open>The game world\<close>

text \<open>
  \<^verbatim>\<open>GameWorld.plants\<close> maps a tile to a \<^verbatim>\<open>Plant\<close> object, and several tiles share one
  object. Objects are modelled by a store: \<open>plants\<close> maps a tile to the identity of its
  plant, \<open>objs\<close> maps an identity to the object's current fields, and \<open>next_id\<close> is the
  identity the next constructed plant gets. A cell of \<open>objs\<close> at or above \<open>next_id\<close> has
  no meaning.
\<close>

record GameWorld =
  world_map :: Map
  player :: Player
  plants :: "int \<times> int \<rightharpoonup> nat"
  objs :: "nat \<Rightarrow> Plant"
  next_id :: nat
  shop :: Shop
  error_message :: string
  error_timer :: real

definition no_plant :: Plant where
  "no_plant = Plant_init (mk_PlantType [] 0 None 0 (1, 1)) 0 0 0"

definition GameWorld_init :: "(int \<Rightarrow> int \<Rightarrow> real) \<Rightarrow> (nat \<Rightarrow> nat) \<Rightarrow> GameWorld" where
  "GameWorld_init noise rnd =
     \<lparr>world_map = Map_init noise,
      player = Player_init (real_of_int (TILE_SIZE * MAP_WIDTH div 2))
                           (real_of_int (TILE_SIZE * MAP_HEIGHT div 2)),
      plants = Map.empty, objs = (\<lambda>r. no_plant), next_id = 0,
      shop = Shop_init rnd, error_message = [], error_timer = 0.0\<rparr>"

definition show_error :: "GameWorld \<Rightarrow> string \<Rightarrow> GameWorld" where
  "show_error w message = w\<lparr>error_message := message, error_timer := 3.0\<rparr>"

text \<open>
  \<^verbatim>\<open>GameWorld.can_plant_at\<close>: the two nested loops visit the tiles of the
  \<open>width \<times> height\<close> box row by row and return \<^verbatim>\<open>False\<close> at the first tile that fails.
\<close>

definition box_tiles :: "int \<Rightarrow> int \<Rightarrow> int \<times> int \<Rightarrow> (int \<times> int) list" where
  "box_tiles x0 y0 sz =
     concat (map (\<lambda>dy. map (\<lambda>dx. (x0 + dx, y0 + dy)) (py_range (fst sz))) (py_range (snd sz)))"

definition check_tile :: "GameWorld \<Rightarrow> int \<times> int \<Rightarrow> error + bool" where
  "check_tile w c =
     (let check_x = fst c; check_y = snd c in
      if check_x < 0 \<or> check_x \<ge> MAP_WIDTH \<or> check_y < 0 \<or> check_y \<ge> MAP_HEIGHT then Inr False
      else case is_tillable (world_map w) check_x check_y of
             Inl e \<Rightarrow> Inl e
           | Inr tillable \<Rightarrow>
               if \<not> tillable then Inr False
               else if (check_x, check_y) \<in> dom (plants w) then Inr False
               else Inr True)"

fun all_tiles_ok :: "(int \<times> int \<Rightarrow> error + bool) \<Rightarrow> (int \<times> int) list \<Rightarrow> error + bool" where
  "all_tiles_ok chk [] = Inr True"
| "all_tiles_ok chk (c # cs) =
     (case chk c of
        Inl e \<Rightarrow> Inl e
      | Inr ok \<Rightarrow> if ok then all_tiles_ok chk cs else Inr False)"

definition can_plant_at :: "GameWorld \<Rightarrow> int \<Rightarrow> int \<Rightarrow> int \<times> int \<Rightarrow> error + bool" where
  "can_plant_at w x0 y0 sz = all_tiles_ok (check_tile w) (box_tiles x0 y0 sz)"

text \<open>
  \<^verbatim>\<open>GameWorld.find_planting_spot\<close>. \<^verbatim>\<open>random.shuffle\<close> is the parameter \<open>shuffle\<close>,
  which the theorems only assume to permute its argument. The loop over the radii is
  \<open>search_rings\<close>; \<open>find_spot_within\<close> is the loop for a given planting range.
\<close>

definition ring_positions :: "int \<Rightarrow> int \<Rightarrow> int \<Rightarrow> (int \<times> int) list" where
  "ring_positions player_x player_y radius =
     (if radius = 0 then [(player_x, player_y)]
      else concat (map (\<lambda>dx. map (\<lambda>dy. (player_x + dx, player_y + dy))
                                 (filter (\<lambda>dy. \<bar>dx\<bar> = radius \<or> \<bar>dy\<bar> = radius)
                                         (py_range2 (- radius) (radius + 1))))
                       (py_range2 (- radius) (radius + 1))))"

fun first_plantable :: "GameWorld \<Rightarrow> int \<times> int \<Rightarrow> (int \<times> int) list \<Rightarrow> error + (int \<times> int) option" where
  "first_plantable w sz [] = Inr None"
| "first_plantable w sz (c # cs) =
     (case can_plant_at w (fst c) (snd c) sz of
        Inl e \<Rightarrow> Inl e
      | Inr ok \<Rightarrow> if ok then Inr (Some c) else first_plantable w sz cs)"

fun search_rings ::
  "((int \<times> int) list \<Rightarrow> (int \<times> int) list) \<Rightarrow> GameWorld \<Rightarrow> int \<Rightarrow> int \<Rightarrow> int \<times> int \<Rightarrow> int list
   \<Rightarrow> error + (int \<times> int) option" where
  "search_rings shuffle w player_x player_y sz [] = Inr None"
| "search_rings shuffle w player_x player_y sz (radius # rs) =
     (case first_plantable w sz (shuffle (ring_positions player_x player_y radius)) of
        Inl e \<Rightarrow> Inl e
      | Inr (Some c) \<Rightarrow> Inr (Some c)
      | Inr None \<Rightarrow> search_rings shuffle w player_x player_y sz rs)"

definition find_spot_within ::
  "((int \<times> int) list \<Rightarrow> (int \<times> int) list) \<Rightarrow> GameWorld \<Rightarrow> int \<Rightarrow> int \<Rightarrow> int \<times> int \<Rightarrow> int
   \<Rightarrow> error + (int \<times> int) option" where
  "find_spot_within shuffle w player_x player_y sz planting_range =
     search_rings shuffle w player_x player_y sz (py_range (planting_range + 1))"

definition find_planting_spot ::
  "((int \<times> int) list \<Rightarrow> (int \<times> int) list) \<Rightarrow> GameWorld \<Rightarrow> int \<Rightarrow> int \<Rightarrow> int \<times> int
   \<Rightarrow> error + (int \<times> int) option" where
  "find_planting_spot shuffle w player_x player_y sz =
     (case get_planting_range (player w) of
        Inl e \<Rightarrow> Inl e
      | Inr planting_range \<Rightarrow> find_spot_within shuffle w player_x player_y sz planting_range)"

text \<open>
  \<^verbatim>\<open>GameWorld.handle_harvesting\<close>. The scan visits the offsets row by row; the world
  changes while it runs, so it is a fold of \<open>harvest_tile\<close> over the offsets.
\<close>

definition remove_tiles :: "(int \<times> int) list \<Rightarrow> (int \<times> int \<rightharpoonup> nat) \<Rightarrow> (int \<times> int \<rightharpoonup> nat)" where
  "remove_tiles ts m = foldl (\<lambda>m t. if t \<in> dom m then m(t := None) else m) m ts"

definition harvest_tile :: "int \<Rightarrow> int \<Rightarrow> int \<Rightarrow> GameWorld \<Rightarrow> int \<times> int \<Rightarrow> GameWorld" where
  "harvest_tile player_tile_x player_tile_y harvest_range w d =
     (let dx = fst d; dy = snd d;
          check_x = player_tile_x + dx; check_y = player_tile_y + dy in
      if sqrt (real_of_int (dx * dx + dy * dy)) \<le> real_of_int harvest_range then
        (case plants w (check_x, check_y) of
           None \<Rightarrow> w
         | Some r \<Rightarrow>
             let plant = objs w r in
             if harvestable plant then
               w\<lparr>plants := remove_tiles (get_occupied_tiles plant) (plants w),
                 player := (player w)\<lparr>inventory :=
                             add_item (inventory (player w)) (name (plant_type plant)) 1\<rparr>\<rparr>
             else w)
      else w)"

definition harvest_offsets :: "int \<Rightarrow> (int \<times> int) list" where
  "harvest_offsets harvest_range =
     concat (map (\<lambda>dy. map (\<lambda>dx. (dx, dy)) (py_range2 (- harvest_range) (harvest_range + 1)))
                 (py_range2 (- harvest_range) (harvest_range + 1)))"

definition handle_harvesting :: "GameWorld \<Rightarrow> error + GameWorld" where
  "handle_harvesting w =
     (let player_tile_x = fst (get_tile_position (player w));
          player_tile_y = snd (get_tile_position (player w)) in
      case get_harvest_range (player w) of
        Inl e \<Rightarrow> Inl e
      | Inr harvest_range \<Rightarrow>
          Inr (foldl (harvest_tile player_tile_x player_tile_y harvest_range) w
                     (harvest_offsets harvest_range)))"

text \<open>
  \<^verbatim>\<open>GameWorld.handle_planting\<close>. The loop over the seeds returns at the first entry with
  a positive quantity, whatever happens to it. The new plant is constructed at the clock
  reading \<open>now\<close>.
\<close>

definition register_tiles :: "(int \<times> int) list \<Rightarrow> nat \<Rightarrow> (int \<times> int \<rightharpoonup> nat) \<Rightarrow> (int \<times> int \<rightharpoonup> nat)" where
  "register_tiles ts r m = foldl (\<lambda>m t. m(t \<mapsto> r)) m ts"

definition handle_planting ::
  "((int \<times> int) list \<Rightarrow> (int \<times> int) list) \<Rightarrow> real \<Rightarrow> GameWorld \<Rightarrow> error + GameWorld" where
  "handle_planting shuffle now w =
     (let player_tile_x = fst (get_tile_position (player w));
          player_tile_y = snd (get_tile_position (player w)) in
      case find (\<lambda>(plant_name, quantity). quantity > 0) (seeds (inventory (player w))) of
        None \<Rightarrow> Inr (show_error w ''No seeds in inventory!'')
      | Some (plant_name, quantity) \<Rightarrow>
          (case map_of (get_all_plant_types (shop w)) plant_name of
             None \<Rightarrow> Inl KeyError
           | Some pt \<Rightarrow>
               (case find_planting_spot shuffle w player_tile_x player_tile_y (size_wh pt) of
                  Inl e \<Rightarrow> Inl e
                | Inr None \<Rightarrow>
                    Inr (show_error w ''Error: Not enough space to place that seed here'')
                | Inr (Some spot) \<Rightarrow>
                    let new_plant = Plant_init pt (fst spot) (snd spot) now;
                        r = next_id w
                    in Inr (w\<lparr>objs := (objs w)(r := new_plant),
                              next_id := Suc r,
                              plants := register_tiles (get_occupied_tiles new_plant) r (plants w),
                              player := (player w)\<lparr>inventory :=
                                          snd (use_seed (inventory (player w)) plant_name)\<rparr>\<rparr>))))"

text \<open>
  The worlds the program can reach. Between the transactions the frame loop updates live
  plants (\<open>grow\<close>: one call of \<^verbatim>\<open>plant.update\<close> on the plant of some occupied tile, at any
  clock reading and with any multipliers) and changes the player by moving, buying and
  selling (\<open>act\<close>: any change of the player record). Both rules allow more than the frame
  loop does, so what holds of every reachable world holds of every world of the program.
\<close>

inductive reachable :: "GameWorld \<Rightarrow> bool" where
  start: "reachable (GameWorld_init noise rnd)"
| plant: "reachable w \<Longrightarrow> \<forall>xs. mset (shuffle xs) = mset xs \<Longrightarrow>
          handle_planting shuffle now w = Inr w' \<Longrightarrow> reachable w'"
| harvest: "reachable w \<Longrightarrow> handle_harvesting w = Inr w' \<Longrightarrow> reachable w'"
| grow: "reachable w \<Longrightarrow> plants w t = Some r \<Longrightarrow>
         Plant_update (objs w r) now wm fm tt = Inr p' \<Longrightarrow>
         reachable (w\<lparr>objs := (objs w)(r := p')\<rparr>)"
| act: "reachable w \<Longrightarrow> reachable (w\<lparr>player := p\<rparr>)"

subsection \<open>Auxiliary notions for the properties\<close>

text \<open>
  The stage that \<open>Plant_update\<close> assigns, as a function of the remaining time, and the
  invariant of a plant: the stored stage and flag agree with the remaining time.
\<close>

definition stage_of :: "real \<Rightarrow> real \<Rightarrow> PlantGrowthStage" where
  "stage_of tr gt =
     (if tr \<le> 0 then HARVESTABLE
      else if 1 - tr / gt \<ge> 0.8 then MATURE
      else if 1 - tr / gt \<ge> 0.5 then YOUNG
      else if 1 - tr / gt \<ge> 0.2 then SPROUT
      else SEED)"

definition plant_inv :: "Plant \<Rightarrow> bool" where
  "plant_inv p =
     (0 < growth_time (plant_type p) \<and> 0 \<le> time_remaining p \<and>
      harvestable p = (time_remaining p \<le> 0) \<and>
      stage p = stage_of (time_remaining p) (growth_time (plant_type p)))"

text \<open>A plant type used in examples: the catalogue's first entry.\<close>

definition radish :: PlantType where
  "radish = mk_PlantType ''Radish'' 1 (Some 1.01) 5 (1, 1)"


text \<open>
  The Chebyshev distance between two tiles, and what validation asks of one tile on the
  generated map: inside the grid, soil or grass, and not occupied.
\<close>

definition chebyshev :: "int \<times> int \<Rightarrow> int \<times> int \<Rightarrow> int" where
  "chebyshev c d = max \<bar>fst c - fst d\<bar> \<bar>snd c - snd d\<bar>"

definition valid_tile :: "(int \<Rightarrow> int \<Rightarrow> real) \<Rightarrow> GameWorld \<Rightarrow> int \<times> int \<Rightarrow> bool" where
  "valid_tile noise w c =
     (0 \<le> fst c \<and> fst c < 150 \<and> 0 \<le> snd c \<and> snd c < 150 \<and>
      generate_tile noise 150 150 (fst c) (snd c) \<in> {''soil'', ''grass''} \<and>
      c \<notin> dom (plants w))"


text \<open>
  The invariant of the field: a tile of \<open>plants\<close> holds an allocated plant whose
  footprint contains the tile and is registered as a whole; and every catalogue entry is
  a rectangle.
\<close>

definition field_inv :: "GameWorld \<Rightarrow> bool" where
  "field_inv w =
     ((\<forall>t r. plants w t = Some r \<longrightarrow>
         r < next_id w \<and> t \<in> set (get_occupied_tiles (objs w r)) \<and>
         (\<forall>u \<in> set (get_occupied_tiles (objs w r)). plants w u = Some r)) \<and>
      (\<forall>n pt. map_of (get_all_plant_types (shop w)) n = Some pt \<longrightarrow> shape pt = ''rectangle''))"

text \<open>
  The harvest range test on a tile, and the plants a harvest at tile \<open>(a, b)\<close> with range
  \<open>R\<close> is to take: the live harvestable plants with a footprint tile in range.
  \<open>scan_hits\<close> is the same set seen from the scan: the harvestable plants found at an
  offset of the scan that lies in the circle. \<open>item_count\<close> is
  \<^verbatim>\<open>player.inventory.items.get(n, 0)\<close>.
\<close>

definition within_harvest_range :: "int \<Rightarrow> int \<Rightarrow> int \<Rightarrow> int \<times> int \<Rightarrow> bool" where
  "within_harvest_range a b R t =
     (sqrt (real_of_int ((fst t - a) * (fst t - a) + (snd t - b) * (snd t - b))) \<le> real_of_int R)"

definition harvested :: "GameWorld \<Rightarrow> int \<Rightarrow> int \<Rightarrow> int \<Rightarrow> nat set" where
  "harvested w a b R =
     {r. r \<in> ran (plants w) \<and> harvestable (objs w r) \<and>
         (\<exists>t \<in> set (get_occupied_tiles (objs w r)). within_harvest_range a b R t)}"

definition offset_in_circle :: "int \<times> int \<Rightarrow> int \<Rightarrow> bool" where
  "offset_in_circle d R = (sqrt (real_of_int (fst d * fst d + snd d * snd d)) \<le> real_of_int R)"

definition scan_hits :: "GameWorld \<Rightarrow> int \<Rightarrow> int \<Rightarrow> int \<Rightarrow> (int \<times> int) list \<Rightarrow> nat set" where
  "scan_hits w a b R ds =
     {r. harvestable (objs w r) \<and>
         (\<exists>d \<in> set ds. offset_in_circle d R \<and>
                        plants w (a + fst d, b + snd d) = Some r)}"

definition item_count :: "GameWorld \<Rightarrow> string \<Rightarrow> int" where
  "item_count w n = dict_get0 (items (inventory (player w))) n"

text \<open>An example world: one ripe radish on the player's tile \<open>(20, 20)\<close>.\<close>

definition ripe_radish :: Plant where
  "ripe_radish = (Plant_init radish 20 20 0)\<lparr>time_remaining := 0, last_update := 10,
                    stage := HARVESTABLE, harvestable := True\<rparr>"

definition example_field :: GameWorld where
  "example_field =
     \<lparr>world_map = Map_init (\<lambda>x y. 0), player = Player_init 960 960,
      plants = [(20, 20) \<mapsto> 0], objs = (\<lambda>r. no_plant)(0 := ripe_radish), next_id = 1,
      shop = Shop_init (\<lambda>i. 0), error_message = [], error_timer = 0\<rparr>"

section \<open>Properties\<close>

subsection \<open>Fertilizer multipliers\<close>

text \<open>
  Claim C10. The second definition of \<^verbatim>\<open>get_fertilizer_multiplier\<close> shadows the first:
  for every player, the multiplier at fertilizer levels 0, 1, 2 and 3 is 1, 2, 10 and 100,
  where the first definition would give 2.5, 50 and 500 at levels 1, 2 and 3.
\<close>

theorem fertilizer_multiplier_shadowed:
  "get_fertilizer_multiplier (p\<lparr>fertilizer_level := 0\<rparr>) = Inr 1.0 \<and>
   get_fertilizer_multiplier (p\<lparr>fertilizer_level := 1\<rparr>) = Inr 2.0 \<and>
   get_fertilizer_multiplier (p\<lparr>fertilizer_level := 2\<rparr>) = Inr 10.0 \<and>
   get_fertilizer_multiplier (p\<lparr>fertilizer_level := 3\<rparr>) = Inr 100.0 \<and>
   get_fertilizer_multiplier_line269 (p\<lparr>fertilizer_level := 1\<rparr>) = Inr 2.5 \<and>
   get_fertilizer_multiplier_line269 (p\<lparr>fertilizer_level := 2\<rparr>) = Inr 50.0 \<and>
   get_fertilizer_multiplier_line269 (p\<lparr>fertilizer_level := 3\<rparr>) = Inr 500.0"
  by (simp add: get_fertilizer_multiplier_def class_namespace_def Player_class_body_def
      get_fertilizer_multiplier_line284_def get_fertilizer_multiplier_line269_def py_index_def)

subsection \<open>Growth\<close>

lemma stage_cases_mono:
  fixes a b tr tr' :: real
  assumes "b \<le> a" "tr' \<le> tr"
  shows "stage_value (if tr \<le> 0 then HARVESTABLE
      else if 1 - a \<ge> 0.8 then MATURE
      else if 1 - a \<ge> 0.5 then YOUNG
      else if 1 - a \<ge> 0.2 then SPROUT
      else SEED) \<le> stage_value (if tr' \<le> 0 then HARVESTABLE
      else if 1 - b \<ge> 0.8 then MATURE
      else if 1 - b \<ge> 0.5 then YOUNG
      else if 1 - b \<ge> 0.2 then SPROUT
      else SEED)"
  using assms by auto

lemma stage_of_mono:
  assumes "0 < gt" "tr' \<le> tr"
  shows "stage_value (stage_of tr gt) \<le> stage_value (stage_of tr' gt)"
proof -
  have "tr' / gt \<le> tr / gt" using assms by (simp add: divide_right_mono)
  then show ?thesis unfolding stage_of_def using assms(2) by (rule stage_cases_mono)
qed

lemma Plant_update_result:
  assumes "growth_time (plant_type p) \<noteq> 0" "\<not> harvestable p"
  shows "\<exists>p'. Plant_update p now wm fm tt = Inr p' \<and>
     plant_type p' = plant_type p \<and> plant_x p' = plant_x p \<and> plant_y p' = plant_y p \<and>
     last_update p' = now \<and>
     time_remaining p' = max 0 (time_remaining p - (now - last_update p) * (wm * fm * (if tt = ''soil'' then 1.1 else 1.0))) \<and>
     harvestable p' = (time_remaining p' \<le> 0) \<and>
     stage p' = stage_of (time_remaining p') (growth_time (plant_type p))"
  using assms by (simp add: Plant_update_def Let_def stage_of_def)

lemma plant_inv_init: "0 < growth_time pt \<Longrightarrow> plant_inv (Plant_init pt x y now)"
  by (simp add: plant_inv_def Plant_init_def stage_of_def)

lemma plant_inv_update:
  assumes "plant_inv p" "Plant_update p now wm fm tt = Inr p'"
  shows "plant_inv p'"
proof (cases "harvestable p")
  case True
  then show ?thesis using assms by (simp add: Plant_update_def)
next
  case False
  have gt: "growth_time (plant_type p) \<noteq> 0" using assms(1) by (simp add: plant_inv_def)
  from Plant_update_result[OF gt False, of now wm fm tt] assms
  show ?thesis by (auto simp: plant_inv_def)
qed

lemma cultivar_inv: "cultivar p \<Longrightarrow> plant_inv p"
  by (induction rule: cultivar.induct) (auto intro: plant_inv_init plant_inv_update)

text \<open>Every seed of the catalogue has a positive growth time, as \<open>cultivar\<close> asks.\<close>

lemma catalogue_growth_times:
  "(n, c, t) \<in> set (common_data @ rare_data @ mythic_data @ legendary_data) \<Longrightarrow> 0 < t"
  by (auto simp: common_data_def rare_data_def mythic_data_def legendary_data_def)

text \<open>
  Claim C5. For every plant the program can produce, an update at a clock reading not
  before the last one and with non-negative multipliers returns a plant whose remaining
  time has not increased and whose stage has not moved backwards; a harvestable plant has
  remaining time 0 and is returned unchanged.
\<close>

theorem growth_monotone:
  assumes "cultivar p" "last_update p \<le> now" "0 \<le> wm" "0 \<le> fm"
  shows "\<exists>p'. Plant_update p now wm fm tt = Inr p' \<and>
           time_remaining p' \<le> time_remaining p \<and>
           stage_value (stage p) \<le> stage_value (stage p') \<and>
           (harvestable p \<longrightarrow> p' = p \<and> time_remaining p = 0)"
proof (cases "harvestable p")
  case True
  have "plant_inv p" using assms(1) by (rule cultivar_inv)
  with True have "time_remaining p = 0" by (simp add: plant_inv_def)
  with True show ?thesis by (simp add: Plant_update_def)
next
  case False
  have inv: "plant_inv p" using assms(1) by (rule cultivar_inv)
  then have gt: "growth_time (plant_type p) \<noteq> 0" by (simp add: plant_inv_def)
  from Plant_update_result[OF gt False, of now wm fm tt]
  obtain p' where p': "Plant_update p now wm fm tt = Inr p'"
    "time_remaining p' = max 0 (time_remaining p - (now - last_update p) * (wm * fm * (if tt = ''soil'' then 1.1 else 1.0)))"
    "stage p' = stage_of (time_remaining p') (growth_time (plant_type p))"
    by blast
  have "0 \<le> (now - last_update p) * (wm * fm * (if tt = ''soil'' then 1.1 else 1.0))"
    using assms by simp
  with p'(2) inv have le: "time_remaining p' \<le> time_remaining p"
    by (simp add: plant_inv_def)
  have "stage_value (stage p) \<le> stage_value (stage p')"
    using inv le p'(3) stage_of_mono[of "growth_time (plant_type p)" "time_remaining p'" "time_remaining p"]
    by (simp add: plant_inv_def)
  with p'(1) le False show ?thesis by simp
qed

theorem growth_monotone_witness:
  "cultivar (Plant_init radish 0 0 0\<lparr>time_remaining := 0, last_update := 10, stage := HARVESTABLE, harvestable := True\<rparr>) \<and>
   Plant_update (Plant_init radish 0 0 0\<lparr>time_remaining := 0, last_update := 10, stage := HARVESTABLE, harvestable := True\<rparr>) 11 1 1 ''grass''
     = Inr (Plant_init radish 0 0 0\<lparr>time_remaining := 0, last_update := 10, stage := HARVESTABLE, harvestable := True\<rparr>)"
proof -
  let ?H = "Plant_init radish 0 0 0\<lparr>time_remaining := 0, last_update := 10, stage := HARVESTABLE, harvestable := True\<rparr>"
  have c0: "cultivar (Plant_init radish 0 0 0)"
    by (rule cultivar.planted) (simp add: radish_def mk_PlantType_def)
  have u: "Plant_update (Plant_init radish 0 0 0) 10 1 1 ''grass'' = Inr ?H"
    by (simp add: Plant_update_def Plant_init_def radish_def mk_PlantType_def Let_def)
  have c: "cultivar ?H"
    by (rule cultivar.grown[OF c0 _ _ _ u]) (simp_all add: Plant_init_def)
  have h: "harvestable ?H" by simp
  from growth_monotone[OF c, of 11 1 1 "''grass''"] h
  show ?thesis using c by (auto simp: Plant_init_def)
qed

subsection \<open>The tile predicates\<close>

lemma length_py_range: "length (py_range n) = nat n"
  by (simp add: py_range_def)

lemma nth_py_range: "0 \<le> i \<Longrightarrow> i < n \<Longrightarrow> py_range n ! nat i = i"
  by (simp add: py_range_def)

lemma set_py_range: "set (py_range n) = {0..<n}"
  by (auto simp: py_range_def)

lemma set_py_range2: "set (py_range2 a b) = {a..<b}"
  by (auto simp: py_range2_def)

lemma py_index_in_range:
  "0 \<le> i \<Longrightarrow> i < int (length xs) \<Longrightarrow> py_index xs i = Inr (xs ! nat i)"
  by (simp add: py_index_def)

lemma nth_map_py_range:
  "0 \<le> i \<Longrightarrow> i < n \<Longrightarrow> map f (py_range n) ! nat i = f i"
  by (simp add: py_range_def)

lemma generated_rows:
  "tiles (Map_init noise) =
     map (\<lambda>y. map (\<lambda>x. generate_tile noise 150 150 x y) (py_range 150)) (py_range 150)"
  by (simp add: Map_init_def generate_map_def MAP_WIDTH_def MAP_HEIGHT_def)

lemma py_index_generated:
  assumes "0 \<le> i" "i < 150"
  shows "py_index (map f (py_range 150)) i = Inr (f i)"
proof -
  have "py_index (map f (py_range 150)) i = Inr (map f (py_range 150) ! nat i)"
    by (rule py_index_in_range) (use assms in \<open>simp_all add: length_py_range\<close>)
  also have "map f (py_range 150) ! nat i = f i"
    by (rule nth_map_py_range) (use assms in simp_all)
  finally show ?thesis .
qed

lemma tile_at_generated:
  assumes "0 \<le> x0" "x0 < 150" "0 \<le> y0" "y0 < 150"
  shows "tile_at (Map_init noise) x0 y0 = Inr (generate_tile noise 150 150 x0 y0)"
  by (simp add: tile_at_def generated_rows py_index_generated assms)

lemma is_walkable_generated:
  "is_walkable (Map_init noise) x0 y0 =
     Inr (0 \<le> x0 \<and> x0 < 150 \<and> 0 \<le> y0 \<and> y0 < 150 \<and> generate_tile noise 150 150 x0 y0 \<noteq> ''water'')"
proof (cases "0 \<le> x0 \<and> x0 < 150 \<and> 0 \<le> y0 \<and> y0 < 150")
  case True
  then show ?thesis
    by (simp add: is_walkable_def tile_at_generated) (simp add: Map_init_def MAP_WIDTH_def MAP_HEIGHT_def)
next
  case False
  then show ?thesis
    by (auto simp: is_walkable_def Map_init_def MAP_WIDTH_def MAP_HEIGHT_def)
qed

lemma is_tillable_generated:
  "is_tillable (Map_init noise) x0 y0 =
     Inr (0 \<le> x0 \<and> x0 < 150 \<and> 0 \<le> y0 \<and> y0 < 150 \<and>
          generate_tile noise 150 150 x0 y0 \<in> {''soil'', ''grass''})"
proof (cases "0 \<le> x0 \<and> x0 < 150 \<and> 0 \<le> y0 \<and> y0 < 150")
  case True
  then show ?thesis
    by (simp add: is_tillable_def tile_at_generated) (simp add: Map_init_def MAP_WIDTH_def MAP_HEIGHT_def)
next
  case False
  then show ?thesis
    by (auto simp: is_tillable_def Map_init_def MAP_WIDTH_def MAP_HEIGHT_def)
qed

lemma py_index_negative:
  "i < 0 \<Longrightarrow> - int (length xs) \<le> i \<Longrightarrow> py_index xs i = Inr (xs ! nat (int (length xs) + i))"
  by (simp add: py_index_def)

lemma py_index_above: "int (length xs) \<le> i \<Longrightarrow> py_index xs i = Inl IndexError"
  by (simp add: py_index_def)

text \<open>
  Claim C9. \<open>is_walkable\<close> and \<open>is_tillable\<close> test the bounds first and answer
  \<open>False\<close> outside the grid (\<open>is_walkable_generated\<close>, \<open>is_tillable_generated\<close>).
  \<open>is_sell_area\<close> has no such test: on the generated 150 by 150 map it raises
  \<^verbatim>\<open>IndexError\<close> at \<open>(150, 0)\<close> and at \<open>(0, 150)\<close>, and at \<open>(-75, -75)\<close>, where Python's
  negative indices wrap to the centre tile, it answers \<open>True\<close>.
\<close>

theorem is_sell_area_unguarded:
  "is_sell_area (Map_init noise) 150 0 = Inl IndexError \<and>
   is_sell_area (Map_init noise) 0 150 = Inl IndexError \<and>
   is_sell_area (Map_init noise) (- 75) (- 75) = Inr True"
proof -
  have a: "is_sell_area (Map_init noise) 150 0 = Inl IndexError"
    by (simp add: is_sell_area_def tile_at_def generated_rows py_index_generated py_index_above
        length_py_range)
  have b: "is_sell_area (Map_init noise) 0 150 = Inl IndexError"
    by (simp add: is_sell_area_def tile_at_def generated_rows py_index_above length_py_range)
  have n: "py_index (map f (py_range 150)) (- 75) = Inr (f 75)" for f :: "int \<Rightarrow> 'b"
  proof -
    have "py_index (map f (py_range 150)) (- 75) =
            Inr (map f (py_range 150) ! nat (int (length (map f (py_range 150))) + - 75))"
      by (rule py_index_negative) (simp_all add: length_py_range)
    also have "nat (int (length (map f (py_range 150))) + - 75) = nat 75"
      by (simp add: length_py_range)
    also have "map f (py_range 150) ! nat 75 = f 75"
      by (rule nth_map_py_range) simp_all
    finally show ?thesis .
  qed
  have c: "is_sell_area (Map_init noise) (- 75) (- 75) = Inr True"
    by (simp add: is_sell_area_def tile_at_def generated_rows n generate_tile_def
        MAP_WIDTH_def MAP_HEIGHT_def)
  show ?thesis using a b c by simp
qed

subsection \<open>The price table\<close>

lemma foldl_upd_map_of:
  "foldl (\<lambda>m (k, v). m(k \<mapsto> v)) m0 xs = m0 ++ map_of (rev xs)"
  by (induction xs arbitrary: m0) (auto simp: map_add_def fun_eq_iff split: option.splits)

lemma dict_zip_None:
  assumes "length ks = length vs"
  shows "(dict_zip ks vs k = None) = (k \<notin> set ks)"
proof -
  have "set (map fst (zip ks vs)) = set ks" using assms by simp
  then have "fst ` set (zip ks vs) = set ks" by simp
  then show ?thesis
    by (simp add: dict_zip_def foldl_upd_map_of map_add_def map_of_eq_None_iff split: option.splits)
qed

lemma sell_table_lengths: "length sell_keys = length sell_values"
  by (simp add: sell_keys_def sell_values_def)

lemma calculate_sell_value_None:
  "(calculate_sell_value cost t = None) = (cost \<notin> set sell_keys)"
  by (simp add: calculate_sell_value_def dict_zip_None[OF sell_table_lengths])

text \<open>The costs of the catalogue's own seeds are all keys of the table.\<close>

lemma catalogue_costs_in_table:
  "(n, c, t) \<in> set (common_data @ rare_data @ mythic_data @ legendary_data) \<Longrightarrow>
   c \<in> set sell_keys"
  by (auto simp: common_data_def rare_data_def mythic_data_def legendary_data_def sell_keys_def)

text \<open>
  Claim C3 says that a catalogue entry whose cost is not in the table cannot be built.
  It can: cost 7 is not a key, and the entry is built with no sell value.
\<close>

theorem unknown_cost_counterexample:
  "7 \<notin> set sell_keys \<and>
   build_plants (\<lambda>i. (1, 1)) [(''Turnip'', 7, 10)] =
     [(''Turnip'', \<lparr>name = ''Turnip'', seed_cost = 7, sell_value = None, growth_time = 10,
                    size_wh = (1, 1), shape = ''rectangle''\<rparr>)]"
proof -
  have k: "(7::real) \<notin> set sell_keys" by (simp add: sell_keys_def)
  then have "calculate_sell_value 7 10 = None" by (simp add: calculate_sell_value_None)
  then show ?thesis using k by (simp add: build_plants_def mk_PlantType_def)
qed

text \<open>
  Claim C3, as amended. For every seed cost that is not a key of the table,
  \<open>calculate_sell_value\<close> returns \<open>None\<close> without raising, and the catalogue entry is
  built with that undefined sell value.
\<close>

theorem unknown_cost_no_sell_value:
  assumes "cost \<notin> set sell_keys"
  shows "calculate_sell_value cost t = None \<and>
         build_plants sz [(n, cost, t)] = [(n, mk_PlantType n cost None t (sz 0))]"
proof -
  have "calculate_sell_value cost t = None"
    using assms by (simp add: calculate_sell_value_None)
  then show ?thesis by (simp add: build_plants_def)
qed

theorem unknown_cost_no_sell_value_witness:
  "calculate_sell_value 7 10 = None \<and>
   build_plants (\<lambda>i. (1, 1)) [(''Turnip'', 7, 10)] = [(''Turnip'', mk_PlantType ''Turnip'' 7 None 10 (1, 1))]"
proof -
  have k: "(7::real) \<notin> set sell_keys" by (simp add: sell_keys_def)
  from unknown_cost_no_sell_value[OF k, of 10 "\<lambda>i. (1, 1)" "''Turnip''"] show ?thesis by simp
qed

subsection \<open>Footprints and validation\<close>

text \<open>
  Claim C2 says that validation checks exactly the footprint for every shape. For a
  circle in a 2 by 2 box at the origin, the footprint contains \<open>(2, 1)\<close>, which
  validation does not check, and validation checks \<open>(0, 0)\<close>, which is not in the
  footprint.
\<close>

theorem footprint_validation_counterexample:
  "(2, 1) \<in> set (get_occupied_tiles (Plant_init \<lparr>name = ''Bush'', seed_cost = 1, sell_value = Some 1.01,
        growth_time = 5, size_wh = (2, 2), shape = ''circle''\<rparr> 0 0 0)) \<and>
   (2, 1) \<notin> set (box_tiles 0 0 (2, 2)) \<and>
   (0, 0) \<in> set (box_tiles 0 0 (2, 2)) \<and>
   (0, 0) \<notin> set (get_occupied_tiles (Plant_init \<lparr>name = ''Bush'', seed_cost = 1, sell_value = Some 1.01,
        growth_time = 5, size_wh = (2, 2), shape = ''circle''\<rparr> 0 0 0))"
proof -
  have "get_occupied_tiles (Plant_init \<lparr>name = ''Bush'', seed_cost = 1, sell_value = Some 1.01,
        growth_time = 5, size_wh = (2, 2), shape = ''circle''\<rparr> 0 0 0) =
        [(1, 0), (0, 1), (1, 1), (2, 1), (1, 2)]"
    by code_simp
  moreover have "box_tiles 0 0 (2, 2) = [(0, 0), (1, 0), (0, 1), (1, 1)]"
    by code_simp
  ultimately show ?thesis by simp
qed

lemma rectangle_tiles:
  "shape (plant_type p) = ''rectangle'' \<Longrightarrow>
   get_occupied_tiles p = box_tiles (plant_x p) (plant_y p) (size_wh (plant_type p))"
  by (simp add: get_occupied_tiles_def box_tiles_def)

text \<open>
  Claim C2, as amended. For every plant type of shape \<open>'rectangle'\<close> and every origin,
  the tiles validation checks are exactly the tiles \<open>get_occupied_tiles\<close> gives for a
  plant of that type constructed at that origin, in the same order.
\<close>

theorem rectangle_validation_is_footprint:
  assumes "shape pt = ''rectangle''"
  shows "box_tiles x0 y0 (size_wh pt) = get_occupied_tiles (Plant_init pt x0 y0 now) \<and>
         can_plant_at w x0 y0 (size_wh pt) =
           all_tiles_ok (check_tile w) (get_occupied_tiles (Plant_init pt x0 y0 now))"
  using assms by (simp add: get_occupied_tiles_def box_tiles_def can_plant_at_def Plant_init_def)

theorem rectangle_validation_is_footprint_witness:
  "box_tiles 3 4 (size_wh radish) = get_occupied_tiles (Plant_init radish 3 4 0) \<and>
   get_occupied_tiles (Plant_init radish 3 4 0) = [(3, 4)]"
proof -
  have s: "shape radish = ''rectangle''" by (simp add: radish_def mk_PlantType_def)
  from rectangle_validation_is_footprint[OF s, of 3 4 0] show ?thesis
    by (simp add: box_tiles_def radish_def mk_PlantType_def py_range_def)
qed

subsection \<open>Tool purchases\<close>

lemma map_of_dict_update_all:
  "map_of (dict_update_all d new) = map_of d ++ map_of (rev new)"
proof (induction new arbitrary: d)
  case Nil
  then show ?case by (simp add: dict_update_all_def)
next
  case (Cons a new)
  obtain k v where a: "a = (k, v)" by (cases a)
  have "dict_update_all d (a # new) = dict_update_all (AList.update k v d) new"
    by (simp add: dict_update_all_def a)
  then show ?case
    by (simp add: Cons.IH update_conv' a map_add_def fun_eq_iff split: option.splits)
qed

lemma all_plants_tools:
  assumes "map_of (rev tools) n = Some pt"
  shows "map_of (get_all_plant_types (Shop_init rnd)) n = Some pt"
  using assms
  by (simp add: get_all_plant_types_def Shop_init_def create_plant_categories_def
      map_of_dict_update_all map_add_def)

lemma tool_lookup:
  "map_of (rev tools) ''Iron Fertilizer'' = Some (mk_PlantType ''Iron Fertilizer'' 10000 (Some 0) 0 (1, 1))"
  "map_of (rev tools) ''Gold Fertilizer'' = Some (mk_PlantType ''Gold Fertilizer'' 150000 (Some 0) 0 (1, 1))"
  "map_of (rev tools) ''Diamond Fertilizer'' = Some (mk_PlantType ''Diamond Fertilizer'' 2500000 (Some 0) 0 (1, 1))"
  "map_of (rev tools) ''Iron Hoe'' = Some (mk_PlantType ''Iron Hoe'' 5000 (Some 0) 0 (1, 1))"
  "map_of (rev tools) ''Gold Hoe'' = Some (mk_PlantType ''Gold Hoe'' 50000 (Some 0) 0 (1, 1))"
  "map_of (rev tools) ''Diamond Hoe'' = Some (mk_PlantType ''Diamond Hoe'' 250000 (Some 0) 0 (1, 1))"
  "map_of (rev tools) ''Iron Shovel'' = Some (mk_PlantType ''Iron Shovel'' 20000 (Some 0) 0 (1, 1))"
  "map_of (rev tools) ''Gold Shovel'' = Some (mk_PlantType ''Gold Shovel'' 100000 (Some 0) 0 (1, 1))"
  "map_of (rev tools) ''Diamond Shovel'' = Some (mk_PlantType ''Diamond Shovel'' 500000 (Some 0) 0 (1, 1))"
  by (simp_all add: tools_def)

lemma name_tests:
  "str_contains ''Iron Fertilizer'' ''Fertilizer''" "first_word ''Iron Fertilizer'' = Inr ''Iron''"
  "str_contains ''Gold Fertilizer'' ''Fertilizer''" "first_word ''Gold Fertilizer'' = Inr ''Gold''"
  "str_contains ''Diamond Fertilizer'' ''Fertilizer''" "first_word ''Diamond Fertilizer'' = Inr ''Diamond''"
  "\<not> str_contains ''Iron Hoe'' ''Fertilizer''" "str_contains ''Iron Hoe'' ''Hoe''" "first_word ''Iron Hoe'' = Inr ''Iron''"
  "\<not> str_contains ''Gold Hoe'' ''Fertilizer''" "str_contains ''Gold Hoe'' ''Hoe''" "first_word ''Gold Hoe'' = Inr ''Gold''"
  "\<not> str_contains ''Diamond Hoe'' ''Fertilizer''" "str_contains ''Diamond Hoe'' ''Hoe''" "first_word ''Diamond Hoe'' = Inr ''Diamond''"
  "\<not> str_contains ''Iron Shovel'' ''Fertilizer''" "\<not> str_contains ''Iron Shovel'' ''Hoe''"
  "str_contains ''Iron Shovel'' ''Shovel''" "first_word ''Iron Shovel'' = Inr ''Iron''"
  "\<not> str_contains ''Gold Shovel'' ''Fertilizer''" "\<not> str_contains ''Gold Shovel'' ''Hoe''"
  "str_contains ''Gold Shovel'' ''Shovel''" "first_word ''Gold Shovel'' = Inr ''Gold''"
  "\<not> str_contains ''Diamond Shovel'' ''Fertilizer''" "\<not> str_contains ''Diamond Shovel'' ''Hoe''"
  "str_contains ''Diamond Shovel'' ''Shovel''" "first_word ''Diamond Shovel'' = Inr ''Diamond''"
  by (simp_all add: first_word_def is_space_def)

lemma buy_fertilizer_tiers:
  "buy_seeds (Shop_init rnd) p ''Iron Fertilizer'' q =
     Inr (if fertilizer_level p = 0 \<and> 10000 \<le> money p
          then (True, p\<lparr>money := money p - 10000, fertilizer_level := 1\<rparr>) else (False, p)) \<and>
   buy_seeds (Shop_init rnd) p ''Gold Fertilizer'' q =
     Inr (if fertilizer_level p = 1 \<and> 150000 \<le> money p
          then (True, p\<lparr>money := money p - 150000, fertilizer_level := 2\<rparr>) else (False, p)) \<and>
   buy_seeds (Shop_init rnd) p ''Diamond Fertilizer'' q =
     Inr (if fertilizer_level p = 2 \<and> 2500000 \<le> money p
          then (True, p\<lparr>money := money p - 2500000, fertilizer_level := 3\<rparr>) else (False, p))"
  by (simp add: buy_seeds_def all_plants_tools[OF tool_lookup(1)]
      all_plants_tools[OF tool_lookup(2)] all_plants_tools[OF tool_lookup(3)]
      name_tests level_map_def mk_PlantType_def Let_def)

lemma buy_hoe_tiers:
  "buy_seeds (Shop_init rnd) p ''Iron Hoe'' q =
     Inr (if hoe_level p = 0 \<and> 5000 \<le> money p
          then (True, p\<lparr>money := money p - 5000, hoe_level := 1\<rparr>) else (False, p)) \<and>
   buy_seeds (Shop_init rnd) p ''Gold Hoe'' q =
     Inr (if hoe_level p = 1 \<and> 50000 \<le> money p
          then (True, p\<lparr>money := money p - 50000, hoe_level := 2\<rparr>) else (False, p)) \<and>
   buy_seeds (Shop_init rnd) p ''Diamond Hoe'' q =
     Inr (if hoe_level p = 2 \<and> 250000 \<le> money p
          then (True, p\<lparr>money := money p - 250000, hoe_level := 3\<rparr>) else (False, p))"
  by (simp add: buy_seeds_def all_plants_tools[OF tool_lookup(4)]
      all_plants_tools[OF tool_lookup(5)] all_plants_tools[OF tool_lookup(6)]
      name_tests level_map_def mk_PlantType_def Let_def)

lemma buy_shovel_tiers:
  "buy_seeds (Shop_init rnd) p ''Iron Shovel'' q =
     Inr (if shovel_level p = 0 \<and> 20000 \<le> money p
          then (True, p\<lparr>money := money p - 20000, shovel_level := 1\<rparr>) else (False, p)) \<and>
   buy_seeds (Shop_init rnd) p ''Gold Shovel'' q =
     Inr (if shovel_level p = 1 \<and> 100000 \<le> money p
          then (True, p\<lparr>money := money p - 100000, shovel_level := 2\<rparr>) else (False, p)) \<and>
   buy_seeds (Shop_init rnd) p ''Diamond Shovel'' q =
     Inr (if shovel_level p = 2 \<and> 500000 \<le> money p
          then (True, p\<lparr>money := money p - 500000, shovel_level := 3\<rparr>) else (False, p))"
  by (simp add: buy_seeds_def all_plants_tools[OF tool_lookup(7)]
      all_plants_tools[OF tool_lookup(8)] all_plants_tools[OF tool_lookup(9)]
      name_tests level_map_def mk_PlantType_def Let_def)

text \<open>
  Claim C8. For every player and each of the nine tools, the purchase of tier \<open>t\<close>
  succeeds exactly when the tool's current level is \<open>t - 1\<close> and the money covers the
  cost; then the level becomes \<open>t\<close> and the cost is taken from the money, and nothing else
  changes. In every other case the purchase fails and the player is unchanged.
\<close>

theorem tool_tiers_in_order:
  "buy_seeds (Shop_init rnd) p ''Iron Fertilizer'' q =
     Inr (if fertilizer_level p = 0 \<and> 10000 \<le> money p
          then (True, p\<lparr>money := money p - 10000, fertilizer_level := 1\<rparr>) else (False, p)) \<and>
   buy_seeds (Shop_init rnd) p ''Gold Fertilizer'' q =
     Inr (if fertilizer_level p = 1 \<and> 150000 \<le> money p
          then (True, p\<lparr>money := money p - 150000, fertilizer_level := 2\<rparr>) else (False, p)) \<and>
   buy_seeds (Shop_init rnd) p ''Diamond Fertilizer'' q =
     Inr (if fertilizer_level p = 2 \<and> 2500000 \<le> money p
          then (True, p\<lparr>money := money p - 2500000, fertilizer_level := 3\<rparr>) else (False, p)) \<and>
   buy_seeds (Shop_init rnd) p ''Iron Hoe'' q =
     Inr (if hoe_level p = 0 \<and> 5000 \<le> money p
          then (True, p\<lparr>money := money p - 5000, hoe_level := 1\<rparr>) else (False, p)) \<and>
   buy_seeds (Shop_init rnd) p ''Gold Hoe'' q =
     Inr (if hoe_level p = 1 \<and> 50000 \<le> money p
          then (True, p\<lparr>money := money p - 50000, hoe_level := 2\<rparr>) else (False, p)) \<and>
   buy_seeds (Shop_init rnd) p ''Diamond Hoe'' q =
     Inr (if hoe_level p = 2 \<and> 250000 \<le> money p
          then (True, p\<lparr>money := money p - 250000, hoe_level := 3\<rparr>) else (False, p)) \<and>
   buy_seeds (Shop_init rnd) p ''Iron Shovel'' q =
     Inr (if shovel_level p = 0 \<and> 20000 \<le> money p
          then (True, p\<lparr>money := money p - 20000, shovel_level := 1\<rparr>) else (False, p)) \<and>
   buy_seeds (Shop_init rnd) p ''Gold Shovel'' q =
     Inr (if shovel_level p = 1 \<and> 100000 \<le> money p
          then (True, p\<lparr>money := money p - 100000, shovel_level := 2\<rparr>) else (False, p)) \<and>
   buy_seeds (Shop_init rnd) p ''Diamond Shovel'' q =
     Inr (if shovel_level p = 2 \<and> 500000 \<le> money p
          then (True, p\<lparr>money := money p - 500000, shovel_level := 3\<rparr>) else (False, p))"
  using buy_fertilizer_tiers[of rnd p q] buy_hoe_tiers[of rnd p q] buy_shovel_tiers[of rnd p q]
  by simp


subsection \<open>Placement search\<close>

lemma check_tile_generated:
  assumes "world_map w = Map_init noise"
  shows "check_tile w c = Inr (valid_tile noise w c)"
  by (cases c)
     (auto simp: check_tile_def valid_tile_def assms is_tillable_generated MAP_WIDTH_def
       MAP_HEIGHT_def Let_def)

lemma all_tiles_ok_total:
  assumes "\<And>c. chk c = Inr (ok c)"
  shows "all_tiles_ok chk cs = Inr (\<forall>c \<in> set cs. ok c)"
  by (induction cs) (simp_all add: assms)

lemma can_plant_at_generated:
  assumes "world_map w = Map_init noise"
  shows "can_plant_at w x0 y0 sz = Inr (\<forall>c \<in> set (box_tiles x0 y0 sz). valid_tile noise w c)"
  unfolding can_plant_at_def
  by (rule all_tiles_ok_total) (rule check_tile_generated[OF assms])

lemma first_plantable_find:
  assumes "\<And>c. \<exists>b. can_plant_at w (fst c) (snd c) sz = Inr b"
  shows "first_plantable w sz cs = Inr (find (\<lambda>c. can_plant_at w (fst c) (snd c) sz = Inr True) cs)"
proof (induction cs)
  case Nil
  then show ?case by simp
next
  case (Cons c cs)
  obtain b where "can_plant_at w (fst c) (snd c) sz = Inr b" using assms by blast
  then show ?case using Cons by simp
qed

lemma set_ring_positions:
  assumes "0 \<le> r"
  shows "set (ring_positions a b r) = {c. chebyshev c (a, b) = r}"
proof (cases "r = 0")
  case True
  then show ?thesis by (auto simp: ring_positions_def chebyshev_def)
next
  case False
  with assms have r: "0 < r" by simp
  show ?thesis
  proof (intro set_eqI iffI)
    fix c assume "c \<in> set (ring_positions a b r)"
    then obtain dx dy where "c = (a + dx, b + dy)" "- r \<le> dx" "dx \<le> r" "- r \<le> dy" "dy \<le> r"
      "\<bar>dx\<bar> = r \<or> \<bar>dy\<bar> = r"
      using False by (auto simp: ring_positions_def set_py_range2)
    then show "c \<in> {c. chebyshev c (a, b) = r}"
      by (auto simp: chebyshev_def)
  next
    fix c assume "c \<in> {c. chebyshev c (a, b) = r}"
    then have m: "max \<bar>fst c - a\<bar> \<bar>snd c - b\<bar> = r" by (simp add: chebyshev_def)
    define dx dy where "dx = fst c - a" and "dy = snd c - b"
    have c: "c = (a + dx, b + dy)" by (simp add: dx_def dy_def)
    have "- r \<le> dx" "dx \<le> r" "- r \<le> dy" "dy \<le> r" "\<bar>dx\<bar> = r \<or> \<bar>dy\<bar> = r"
      using m by (auto simp: dx_def dy_def max_def split: if_splits)
    then show "c \<in> set (ring_positions a b r)"
      using False unfolding c by (auto simp: ring_positions_def set_py_range2)
  qed
qed

lemma search_rings_upto:
  assumes total: "\<And>c. \<exists>b. can_plant_at w (fst c) (snd c) sz = Inr b"
    and perm: "\<And>xs. set (shuffle xs) = set xs"
  shows "\<exists>res. search_rings shuffle w a b sz [lo..hi] = Inr res \<and>
     (case res of
        None \<Rightarrow> \<forall>r c. lo \<le> r \<and> r \<le> hi \<and> c \<in> set (ring_positions a b r) \<longrightarrow>
                   can_plant_at w (fst c) (snd c) sz \<noteq> Inr True
      | Some c \<Rightarrow> can_plant_at w (fst c) (snd c) sz = Inr True \<and>
          (\<exists>r. lo \<le> r \<and> r \<le> hi \<and> c \<in> set (ring_positions a b r) \<and>
             (\<forall>r' c'. lo \<le> r' \<and> r' < r \<and> c' \<in> set (ring_positions a b r') \<longrightarrow>
                can_plant_at w (fst c') (snd c') sz \<noteq> Inr True)))"
proof (induction lo hi rule: upto.induct)
  case (1 lo hi)
  let ?P = "\<lambda>c. can_plant_at w (fst c) (snd c) sz = Inr True"
  show ?case
  proof (cases "lo \<le> hi")
    case False
    then have "[lo..hi] = []" by simp
    moreover have "r \<le> hi \<Longrightarrow> \<not> lo \<le> r" for r using False by simp
    ultimately show ?thesis by auto
  next
    case True
    then have unf: "[lo..hi] = lo # [lo + 1..hi]" by (rule upto_rec1)
    have fp: "first_plantable w sz (shuffle (ring_positions a b lo)) =
                Inr (find ?P (shuffle (ring_positions a b lo)))"
      by (rule first_plantable_find) (rule total)
    show ?thesis
    proof (cases "find ?P (shuffle (ring_positions a b lo))")
      case (Some c)
      then have "?P c" "c \<in> set (ring_positions a b lo)"
        using perm[of "ring_positions a b lo"] by (auto simp: find_Some_iff)
      then show ?thesis using True by (auto simp: unf fp Some)
    next
      case None
      then have none: "\<forall>c \<in> set (ring_positions a b lo). \<not> ?P c"
        using perm[of "ring_positions a b lo"] by (auto simp: find_None_iff)
      from "1.IH"[OF True] obtain res where
        res: "search_rings shuffle w a b sz [lo + 1..hi] = Inr res"
        and spec: "case res of
            None \<Rightarrow> \<forall>r c. lo + 1 \<le> r \<and> r \<le> hi \<and> c \<in> set (ring_positions a b r) \<longrightarrow> \<not> ?P c
          | Some c \<Rightarrow> ?P c \<and>
             (\<exists>r. lo + 1 \<le> r \<and> r \<le> hi \<and> c \<in> set (ring_positions a b r) \<and>
                (\<forall>r' c'. lo + 1 \<le> r' \<and> r' < r \<and> c' \<in> set (ring_positions a b r') \<longrightarrow> \<not> ?P c'))"
        by blast
      have eq: "search_rings shuffle w a b sz [lo..hi] = Inr res"
        by (simp add: unf fp None res)
      show ?thesis
      proof (cases res)
        case None
        have "\<forall>r c. lo \<le> r \<and> r \<le> hi \<and> c \<in> set (ring_positions a b r) \<longrightarrow> \<not> ?P c"
        proof (intro allI impI)
          fix r c assume h: "lo \<le> r \<and> r \<le> hi \<and> c \<in> set (ring_positions a b r)"
          show "\<not> ?P c"
          proof (cases "r = lo")
            case True
            then show ?thesis using h none by blast
          next
            case False
            then have "lo + 1 \<le> r" using h by simp
            then show ?thesis using spec None h by simp
          qed
        qed
        then show ?thesis using eq None by simp
      next
        case (Some c)
        from spec Some obtain r where r: "?P c" "lo + 1 \<le> r" "r \<le> hi"
          "c \<in> set (ring_positions a b r)"
          "\<forall>r' c'. lo + 1 \<le> r' \<and> r' < r \<and> c' \<in> set (ring_positions a b r') \<longrightarrow> \<not> ?P c'"
          by auto
        have "\<forall>r' c'. lo \<le> r' \<and> r' < r \<and> c' \<in> set (ring_positions a b r') \<longrightarrow> \<not> ?P c'"
        proof (intro allI impI)
          fix r' c' assume h: "lo \<le> r' \<and> r' < r \<and> c' \<in> set (ring_positions a b r')"
          show "\<not> ?P c'"
          proof (cases "r' = lo")
            case True
            then show ?thesis using h none by blast
          next
            case False
            then have "lo + 1 \<le> r'" using h by simp
            then show ?thesis using r(5) h by blast
          qed
        qed
        moreover have "lo \<le> r" using r(2) by simp
        ultimately have "\<exists>r. lo \<le> r \<and> r \<le> hi \<and> c \<in> set (ring_positions a b r) \<and>
             (\<forall>r' c'. lo \<le> r' \<and> r' < r \<and> c' \<in> set (ring_positions a b r') \<longrightarrow> \<not> ?P c')"
          using r(3,4) by blast
        then show ?thesis using eq Some r(1) by simp
      qed
    qed
  qed
qed

text \<open>
  Claim C6. On the generated map, with a shuffle that permutes its argument and a
  planting range \<open>R\<close> read from the player's hoe, \<open>find_planting_spot\<close> returns a result.
  If it returns an origin, the origin passes \<open>can_plant_at\<close> (every tile of its box is in
  the grid, tillable and unoccupied), its Chebyshev distance from the player's tile is at
  most \<open>R\<close>, and no origin that passes \<open>can_plant_at\<close> is nearer. It returns no spot
  exactly when no origin within distance \<open>R\<close> passes. For planting range 0 the search
  returns the player's own tile or no spot.
\<close>

theorem find_planting_spot_nearest:
  assumes "world_map w = Map_init noise"
    and "\<forall>xs. mset (shuffle xs) = mset xs"
    and "get_planting_range (player w) = Inr R"
  shows "\<exists>res. find_planting_spot shuffle w a b sz = Inr res \<and>
     (\<forall>c. res = Some c \<longrightarrow>
        can_plant_at w (fst c) (snd c) sz = Inr True \<and>
        (\<forall>t \<in> set (box_tiles (fst c) (snd c) sz).
           0 \<le> fst t \<and> fst t < MAP_WIDTH \<and> 0 \<le> snd t \<and> snd t < MAP_HEIGHT \<and>
           is_tillable (world_map w) (fst t) (snd t) = Inr True \<and> t \<notin> dom (plants w)) \<and>
        chebyshev c (a, b) \<le> R \<and>
        (\<forall>c'. can_plant_at w (fst c') (snd c') sz = Inr True \<longrightarrow>
           chebyshev c (a, b) \<le> chebyshev c' (a, b))) \<and>
     ((res = None) =
        (\<not> (\<exists>c'. chebyshev c' (a, b) \<le> R \<and> can_plant_at w (fst c') (snd c') sz = Inr True))) \<and>
     (find_spot_within shuffle w a b sz 0 = Inr None \<or>
      find_spot_within shuffle w a b sz 0 = Inr (Some (a, b)))"
proof -
  let ?P = "\<lambda>c. can_plant_at w (fst c) (snd c) sz = Inr True"
  have total: "\<And>c. \<exists>b. can_plant_at w (fst c) (snd c) sz = Inr b"
    by (simp add: can_plant_at_generated[OF assms(1)])
  have perm: "\<And>xs. set (shuffle xs) = set xs"
    using assms(2) by (metis mset_eq_setD)
  have cheb0: "\<And>c. 0 \<le> chebyshev c (a, b)" by (simp add: chebyshev_def)
  from search_rings_upto[of w sz shuffle a b 0 R, OF total perm] obtain res where
    res: "search_rings shuffle w a b sz [0..R] = Inr res"
    and spec: "case res of
        None \<Rightarrow> \<forall>r c. 0 \<le> r \<and> r \<le> R \<and> c \<in> set (ring_positions a b r) \<longrightarrow> \<not> ?P c
      | Some c \<Rightarrow> ?P c \<and>
         (\<exists>r. 0 \<le> r \<and> r \<le> R \<and> c \<in> set (ring_positions a b r) \<and>
            (\<forall>r' c'. 0 \<le> r' \<and> r' < r \<and> c' \<in> set (ring_positions a b r') \<longrightarrow> \<not> ?P c'))"
    by blast
  have eq: "find_planting_spot shuffle w a b sz = Inr res"
    by (simp add: find_planting_spot_def assms(3) find_spot_within_def py_range_def res)
  have found: "?P c \<and>
        (\<forall>t \<in> set (box_tiles (fst c) (snd c) sz).
           0 \<le> fst t \<and> fst t < MAP_WIDTH \<and> 0 \<le> snd t \<and> snd t < MAP_HEIGHT \<and>
           is_tillable (world_map w) (fst t) (snd t) = Inr True \<and> t \<notin> dom (plants w)) \<and>
        chebyshev c (a, b) \<le> R \<and>
        (\<forall>c'. ?P c' \<longrightarrow> chebyshev c (a, b) \<le> chebyshev c' (a, b))" if "res = Some c" for c
  proof -
    from spec that obtain r where r: "?P c" "0 \<le> r" "r \<le> R" "c \<in> set (ring_positions a b r)"
      "\<forall>r' c'. 0 \<le> r' \<and> r' < r \<and> c' \<in> set (ring_positions a b r') \<longrightarrow> \<not> ?P c'"
      by auto
    have cr: "chebyshev c (a, b) = r" using r(2,4) by (simp add: set_ring_positions)
    have min: "chebyshev c (a, b) \<le> chebyshev c' (a, b)" if p: "?P c'" for c'
    proof (rule ccontr)
      assume "\<not> chebyshev c (a, b) \<le> chebyshev c' (a, b)"
      then have lt: "chebyshev c' (a, b) < r" using cr by simp
      have "c' \<in> set (ring_positions a b (chebyshev c' (a, b)))"
        by (simp add: set_ring_positions cheb0)
      then show False using r(5) lt cheb0[of c'] p by blast
    qed
    have tiles: "\<forall>t \<in> set (box_tiles (fst c) (snd c) sz).
           0 \<le> fst t \<and> fst t < MAP_WIDTH \<and> 0 \<le> snd t \<and> snd t < MAP_HEIGHT \<and>
           is_tillable (world_map w) (fst t) (snd t) = Inr True \<and> t \<notin> dom (plants w)"
      using r(1)
      by (auto simp: can_plant_at_generated[OF assms(1)] valid_tile_def assms(1)
          is_tillable_generated MAP_WIDTH_def MAP_HEIGHT_def)
    show ?thesis using r(1,3) cr min tiles by blast
  qed
  have none: "(res = None) = (\<not> (\<exists>c'. chebyshev c' (a, b) \<le> R \<and> ?P c'))"
  proof
    assume n: "res = None"
    show "\<not> (\<exists>c'. chebyshev c' (a, b) \<le> R \<and> ?P c')"
    proof
      assume "\<exists>c'. chebyshev c' (a, b) \<le> R \<and> ?P c'"
      then obtain c' where c': "chebyshev c' (a, b) \<le> R" "?P c'" by blast
      have "c' \<in> set (ring_positions a b (chebyshev c' (a, b)))"
        by (simp add: set_ring_positions cheb0)
      then show False using spec n c' cheb0[of c'] by auto
    qed
  next
    assume n: "\<not> (\<exists>c'. chebyshev c' (a, b) \<le> R \<and> ?P c')"
    show "res = None"
    proof (cases res)
      case None
      then show ?thesis .
    next
      case (Some c)
      from found[OF Some] n show ?thesis by blast
    qed
  qed
  have zero: "find_spot_within shuffle w a b sz 0 = Inr None \<or>
      find_spot_within shuffle w a b sz 0 = Inr (Some (a, b))"
  proof -
    have s: "set (shuffle [(a, b)]) = {(a, b)}" using perm[of "[(a, b)]"] by simp
    have fp: "first_plantable w sz (shuffle [(a, b)]) = Inr (find ?P (shuffle [(a, b)]))"
      by (rule first_plantable_find) (rule total)
    have "find ?P (shuffle [(a, b)]) = None \<or> find ?P (shuffle [(a, b)]) = Some (a, b)"
    proof (cases "find ?P (shuffle [(a, b)])")
      case None
      then show ?thesis by simp
    next
      case (Some c)
      then have "c \<in> set (shuffle [(a, b)])" by (auto simp: find_Some_iff)
      then show ?thesis using s Some by simp
    qed
    then show ?thesis
      by (auto simp: find_spot_within_def py_range_def ring_positions_def fp)
  qed
  show ?thesis using eq found none zero by blast
qed

theorem find_planting_spot_nearest_witness:
  "find_planting_spot (\<lambda>xs. xs) ((GameWorld_init (\<lambda>x y. 0) (\<lambda>i. 0))\<lparr>player := Player_init 960 960\<rparr>)
     20 20 (1, 1) = Inr (Some (20, 20))"
proof -
  let ?w = "(GameWorld_init (\<lambda>x y. 0) (\<lambda>i. 0))\<lparr>player := Player_init 960 960\<rparr>"
  have m: "world_map ?w = Map_init (\<lambda>x y. 0)" by (simp add: GameWorld_init_def)
  have s: "\<forall>xs :: (int \<times> int) list. mset ((\<lambda>xs. xs) xs) = mset xs" by simp
  have r: "get_planting_range (player ?w) = Inr 2"
    by (simp add: get_planting_range_def Player_init_def py_index_def)
  have "can_plant_at ?w 20 20 (1, 1) =
          Inr (\<forall>c \<in> set (box_tiles 20 20 (1, 1)). valid_tile (\<lambda>x y. 0) ?w c)"
    by (rule can_plant_at_generated[OF m])
  also have "(\<forall>c \<in> set (box_tiles 20 20 (1, 1)). valid_tile (\<lambda>x y. 0) ?w c) = True"
    by (simp add: box_tiles_def py_range_def valid_tile_def generate_tile_def GameWorld_init_def
        MAP_WIDTH_def MAP_HEIGHT_def)
  finally have p: "can_plant_at ?w (fst (20, 20)) (snd (20, 20)) (1, 1) = Inr True" by simp
  have c: "chebyshev (20, 20) (20, 20) = 0" by (simp add: chebyshev_def)
  from find_planting_spot_nearest[OF m s r, of 20 20 "(1, 1)"] obtain res where
    res: "find_planting_spot (\<lambda>xs. xs) ?w 20 20 (1, 1) = Inr res"
    and found: "\<forall>c. res = Some c \<longrightarrow>
        (\<forall>c'. can_plant_at ?w (fst c') (snd c') (1, 1) = Inr True \<longrightarrow>
           chebyshev c (20, 20) \<le> chebyshev c' (20, 20))"
    and none: "(res = None) =
        (\<not> (\<exists>c'. chebyshev c' (20, 20) \<le> 2 \<and> can_plant_at ?w (fst c') (snd c') (1, 1) = Inr True))"
    by blast
  have "res \<noteq> None" using none p c by (metis zero_le_numeral)
  then obtain d where d: "res = Some d" by blast
  with found p have "chebyshev d (20, 20) \<le> chebyshev (20, 20) (20, 20)" by blast
  then have "d = (20, 20)" by (cases d) (simp add: chebyshev_def)
  with res d show ?thesis by simp
qed



subsection \<open>The field invariant\<close>

lemma register_tiles_apply:
  "register_tiles ts r m t = (if t \<in> set ts then Some r else m t)"
  unfolding register_tiles_def by (induction ts arbitrary: m) auto

lemma remove_tiles_apply:
  "remove_tiles ts m t = (if t \<in> set ts then None else m t)"
  unfolding remove_tiles_def by (induction ts arbitrary: m) (auto simp: domIff)

lemma Plant_update_tiles:
  assumes "Plant_update p now wm fm tt = Inr p'"
  shows "get_occupied_tiles p' = get_occupied_tiles p"
proof -
  have "plant_type p' = plant_type p \<and> plant_x p' = plant_x p \<and> plant_y p' = plant_y p"
    using assms by (auto simp: Plant_update_def Let_def split: if_splits)
  then have a: "plant_type p' = plant_type p" and b: "plant_x p' = plant_x p"
    and c: "plant_y p' = plant_y p" by simp_all
  show ?thesis unfolding get_occupied_tiles_def a b c ..
qed

lemma all_tiles_ok_True:
  "all_tiles_ok chk cs = Inr True \<Longrightarrow> c \<in> set cs \<Longrightarrow> chk c = Inr True"
  by (induction cs) (auto split: sum.splits if_splits)

lemma check_tile_free: "check_tile w c = Inr True \<Longrightarrow> plants w c = None"
  by (cases c) (auto simp: check_tile_def Let_def domIff split: if_splits sum.splits)

lemma can_plant_at_free:
  assumes "can_plant_at w x0 y0 sz = Inr True" "c \<in> set (box_tiles x0 y0 sz)"
  shows "plants w c = None"
  using assms unfolding can_plant_at_def
  by (blast intro: check_tile_free dest: all_tiles_ok_True)

lemma first_plantable_Some:
  "first_plantable w sz cs = Inr (Some c) \<Longrightarrow> can_plant_at w (fst c) (snd c) sz = Inr True"
  by (induction cs) (auto split: sum.splits if_splits)

lemma search_rings_Some:
  "search_rings shuffle w a b sz rs = Inr (Some c) \<Longrightarrow> can_plant_at w (fst c) (snd c) sz = Inr True"
  by (induction rs) (auto split: sum.splits option.splits dest: first_plantable_Some)

lemma find_planting_spot_Some:
  "find_planting_spot shuffle w a b sz = Inr (Some c) \<Longrightarrow> can_plant_at w (fst c) (snd c) sz = Inr True"
  by (auto simp: find_planting_spot_def find_spot_within_def split: sum.splits
      dest: search_rings_Some)

lemma set_AList_update:
  "(k', v') \<in> set (AList.update k v al) \<Longrightarrow> (k', v') = (k, v) \<or> (k', v') \<in> set al"
  by (induction al) (auto split: if_splits)

lemma build_plants_rectangle:
  "(k, v) \<in> set (build_plants sz data) \<Longrightarrow> shape v = ''rectangle''"
proof -
  have "(k, v) \<in> set (foldl (\<lambda>d (i, (n, cost, t)).
              AList.update n (mk_PlantType n cost (calculate_sell_value cost t) t (sz i)) d)
           d0 xs) \<Longrightarrow> (\<forall>(k, v) \<in> set d0. shape v = ''rectangle'') \<Longrightarrow> shape v = ''rectangle''"
    for d0 xs
  proof (induction xs arbitrary: d0)
    case Nil
    then show ?case by auto
  next
    case (Cons a xs)
    obtain i n cost t where a: "a = (i, (n, cost, t))" by (cases a) auto
    show ?case
    proof (rule Cons.IH)
      show "(k, v) \<in> set (foldl (\<lambda>d (i, (n, cost, t)).
              AList.update n (mk_PlantType n cost (calculate_sell_value cost t) t (sz i)) d)
           (AList.update n (mk_PlantType n cost (calculate_sell_value cost t) t (sz i)) d0) xs)"
        using Cons.prems(1) by (simp add: a)
      show "\<forall>(k, v) \<in> set (AList.update n (mk_PlantType n cost (calculate_sell_value cost t) t (sz i)) d0).
              shape v = ''rectangle''"
        using Cons.prems(2) by (auto dest!: set_AList_update simp: mk_PlantType_def)
    qed
  qed
  then show "(k, v) \<in> set (build_plants sz data) \<Longrightarrow> shape v = ''rectangle''"
    unfolding build_plants_def by force
qed

lemma tools_rectangle: "(k, v) \<in> set tools \<Longrightarrow> shape v = ''rectangle''"
  by (auto simp: tools_def mk_PlantType_def)

lemma catalogue_rectangle:
  assumes "map_of (get_all_plant_types (Shop_init rnd)) n = Some pt"
  shows "shape pt = ''rectangle''"
proof -
  let ?c = "build_plants (\<lambda>i. (1, 1)) common_data"
  let ?r = "build_plants (\<lambda>i. random_choice rare_sizes (rnd i)) rare_data"
  let ?m = "build_plants (\<lambda>i. random_choice mythic_sizes (rnd (length rare_data + i))) mythic_data"
  let ?l = "build_plants (\<lambda>i. (4, 4)) legendary_data"
  have "map_of (get_all_plant_types (Shop_init rnd)) =
          map_of (rev ?c) ++ map_of (rev ?r) ++ map_of (rev ?m) ++ map_of (rev ?l) ++ map_of (rev tools)"
    by (simp add: get_all_plant_types_def Shop_init_def create_plant_categories_def
        map_of_dict_update_all)
  with assms have "(n, pt) \<in> set ?c \<union> set ?r \<union> set ?m \<union> set ?l \<union> set tools"
    by (auto simp: map_add_Some_iff dest!: map_of_SomeD)
  then show ?thesis by (auto dest: build_plants_rectangle tools_rectangle)
qed

lemma field_invI:
  assumes "\<And>t r. plants w t = Some r \<Longrightarrow>
             r < next_id w \<and> t \<in> set (get_occupied_tiles (objs w r)) \<and>
             (\<forall>u \<in> set (get_occupied_tiles (objs w r)). plants w u = Some r)"
    and "\<And>n pt. map_of (get_all_plant_types (shop w)) n = Some pt \<Longrightarrow> shape pt = ''rectangle''"
  shows "field_inv w"
  unfolding field_inv_def using assms by blast

lemma field_inv_live:
  assumes "field_inv w" "plants w t = Some r"
  shows "r < next_id w" "t \<in> set (get_occupied_tiles (objs w r))"
    "\<And>u. u \<in> set (get_occupied_tiles (objs w r)) \<Longrightarrow> plants w u = Some r"
  using assms unfolding field_inv_def by blast+

lemma field_inv_shop:
  assumes "field_inv w" "map_of (get_all_plant_types (shop w)) n = Some pt"
  shows "shape pt = ''rectangle''"
  using assms unfolding field_inv_def by blast

lemma field_inv_same:
  assumes "field_inv w" "plants w' = plants w" "next_id w' = next_id w" "shop w' = shop w"
    "\<And>r. get_occupied_tiles (objs w' r) = get_occupied_tiles (objs w r)"
  shows "field_inv w'"
proof (rule field_invI)
  fix t r assume "plants w' t = Some r"
  then have "plants w t = Some r" by (simp only: assms(2))
  from field_inv_live[OF assms(1) this]
  show "r < next_id w' \<and> t \<in> set (get_occupied_tiles (objs w' r)) \<and>
        (\<forall>u \<in> set (get_occupied_tiles (objs w' r)). plants w' u = Some r)"
    by (simp only: assms(2,3,5)) blast
next
  fix n pt assume "map_of (get_all_plant_types (shop w')) n = Some pt"
  then show "shape pt = ''rectangle''"
    using field_inv_shop[OF assms(1)] by (simp only: assms(4))
qed

lemma field_inv_start: "field_inv (GameWorld_init noise rnd)"
proof (rule field_invI)
  fix t r assume "plants (GameWorld_init noise rnd) t = Some r"
  then have False by (simp add: GameWorld_init_def)
  then show "r < next_id (GameWorld_init noise rnd) \<and>
        t \<in> set (get_occupied_tiles (objs (GameWorld_init noise rnd) r)) \<and>
        (\<forall>u \<in> set (get_occupied_tiles (objs (GameWorld_init noise rnd) r)).
            plants (GameWorld_init noise rnd) u = Some r)" ..
next
  fix n pt assume "map_of (get_all_plant_types (shop (GameWorld_init noise rnd))) n = Some pt"
  then have "map_of (get_all_plant_types (Shop_init rnd)) n = Some pt"
    by (simp add: GameWorld_init_def)
  then show "shape pt = ''rectangle''" by (rule catalogue_rectangle)
qed

lemma field_inv_show_error: "field_inv w \<Longrightarrow> field_inv (show_error w msg)"
  by (erule field_inv_same) (simp_all add: show_error_def)

lemma field_inv_act: "field_inv w \<Longrightarrow> field_inv (w\<lparr>player := p\<rparr>)"
  by (erule field_inv_same) simp_all

lemma field_inv_grow:
  assumes "field_inv w" "Plant_update (objs w r) now wm fm tt = Inr p'"
  shows "field_inv (w\<lparr>objs := (objs w)(r := p')\<rparr>)"
proof (rule field_inv_same[OF assms(1)])
  fix q
  show "get_occupied_tiles (objs (w\<lparr>objs := (objs w)(r := p')\<rparr>) q) = get_occupied_tiles (objs w q)"
    using Plant_update_tiles[OF assms(2)] by simp
qed simp_all

lemma field_inv_register:
  assumes inv: "field_inv w"
    and rect: "shape pt = ''rectangle''"
    and free: "can_plant_at w x0 y0 (size_wh pt) = Inr True"
    and w': "plants w' = register_tiles (get_occupied_tiles (Plant_init pt x0 y0 now)) (next_id w) (plants w)"
      "objs w' = (objs w)(next_id w := Plant_init pt x0 y0 now)"
      "next_id w' = Suc (next_id w)" "shop w' = shop w"
  shows "field_inv w'"
proof (rule field_invI)
  let ?np = "Plant_init pt x0 y0 now"
  let ?ts = "get_occupied_tiles ?np"
  have ts: "?ts = box_tiles x0 y0 (size_wh pt)"
    using rect by (simp add: get_occupied_tiles_def box_tiles_def Plant_init_def)
  have fr: "\<And>c. c \<in> set ?ts \<Longrightarrow> plants w c = None"
    using can_plant_at_free[OF free] ts by simp
  fix t r assume "plants w' t = Some r"
  then have h: "(if t \<in> set ?ts then Some (next_id w) else plants w t) = Some r"
    by (simp only: w'(1) register_tiles_apply)
  show "r < next_id w' \<and> t \<in> set (get_occupied_tiles (objs w' r)) \<and>
        (\<forall>u \<in> set (get_occupied_tiles (objs w' r)). plants w' u = Some r)"
  proof (cases "t \<in> set ?ts")
    case True
    then have r: "r = next_id w" using h by simp
    have o: "objs w' (next_id w) = ?np" by (simp add: w'(2))
    have "\<forall>u \<in> set ?ts. plants w' u = Some (next_id w)"
      by (simp add: w'(1) register_tiles_apply)
    then show ?thesis using True unfolding r o w'(3) by simp
  next
    case False
    then have pt: "plants w t = Some r" using h by simp
    note live = field_inv_live[OF inv pt]
    have o: "objs w' r = objs w r" using live(1) by (simp add: w'(2))
    have "plants w' u = Some r" if "u \<in> set (get_occupied_tiles (objs w r))" for u
    proof -
      have pu: "plants w u = Some r" using live(3) that by blast
      then have "u \<notin> set ?ts" using fr[of u] by auto
      then show ?thesis using pu by (simp add: w'(1) register_tiles_apply)
    qed
    then show ?thesis using live(1,2) by (simp add: o w'(3))
  qed
next
  fix n p assume "map_of (get_all_plant_types (shop w')) n = Some p"
  then show "shape p = ''rectangle''" using field_inv_shop[OF inv] by (simp only: w'(4))
qed

lemma handle_planting_cases:
  assumes "handle_planting shuffle now w = Inr w'"
  shows "(\<exists>msg. w' = show_error w msg) \<or>
         (\<exists>nm pt spot. map_of (get_all_plant_types (shop w)) nm = Some pt \<and>
            can_plant_at w (fst spot) (snd spot) (size_wh pt) = Inr True \<and>
            w' = w\<lparr>objs := (objs w)(next_id w := Plant_init pt (fst spot) (snd spot) now),
                   next_id := Suc (next_id w),
                   plants := register_tiles (get_occupied_tiles (Plant_init pt (fst spot) (snd spot) now))
                               (next_id w) (plants w),
                   player := (player w)\<lparr>inventory := snd (use_seed (inventory (player w)) nm)\<rparr>\<rparr>)"
proof (cases "find (\<lambda>(plant_name, quantity). quantity > 0) (seeds (inventory (player w)))")
  case None
  then show ?thesis using assms by (auto simp: handle_planting_def)
next
  case (Some a)
  obtain nm quantity where a: "a = (nm, quantity)" by (cases a)
  show ?thesis
  proof (cases "map_of (get_all_plant_types (shop w)) nm")
    case None
    then show ?thesis using assms Some a by (simp add: handle_planting_def)
  next
    case pt: (Some pt)
    let ?f = "find_planting_spot shuffle w (fst (get_tile_position (player w)))
                (snd (get_tile_position (player w))) (size_wh pt)"
    show ?thesis
    proof (cases ?f)
      case (Inl e)
      then show ?thesis using assms Some a pt by (simp add: handle_planting_def)
    next
      case (Inr res)
      show ?thesis
      proof (cases res)
        case None
        then show ?thesis using assms Some a pt Inr by (auto simp: handle_planting_def)
      next
        case spot: (Some spot)
        have free: "can_plant_at w (fst spot) (snd spot) (size_wh pt) = Inr True"
          using Inr spot by (auto dest: find_planting_spot_Some)
        have "w' = w\<lparr>objs := (objs w)(next_id w := Plant_init pt (fst spot) (snd spot) now),
                     next_id := Suc (next_id w),
                     plants := register_tiles (get_occupied_tiles (Plant_init pt (fst spot) (snd spot) now))
                                 (next_id w) (plants w),
                     player := (player w)\<lparr>inventory :=
                                          snd (use_seed (inventory (player w)) nm)\<rparr>\<rparr>"
          using assms Some a pt Inr spot by (simp add: handle_planting_def Let_def)
        then show ?thesis using pt free by blast
      qed
    qed
  qed
qed

lemma field_inv_planting:
  assumes inv: "field_inv w" and run: "handle_planting shuffle now w = Inr w'"
  shows "field_inv w'"
proof -
  from handle_planting_cases[OF run] show ?thesis
  proof (elim disjE exE conjE)
    fix msg assume "w' = show_error w msg"
    then show ?thesis using inv by (simp add: field_inv_show_error)
  next
    fix nm pt spot
    assume pt: "map_of (get_all_plant_types (shop w)) nm = Some pt"
      and free: "can_plant_at w (fst spot) (snd spot) (size_wh pt) = Inr True"
      and w': "w' = w\<lparr>objs := (objs w)(next_id w := Plant_init pt (fst spot) (snd spot) now),
                   next_id := Suc (next_id w),
                   plants := register_tiles (get_occupied_tiles (Plant_init pt (fst spot) (snd spot) now))
                               (next_id w) (plants w),
                   player := (player w)\<lparr>inventory := snd (use_seed (inventory (player w)) nm)\<rparr>\<rparr>"
    have rect: "shape pt = ''rectangle''" using field_inv_shop[OF inv pt] .
    show ?thesis
      by (rule field_inv_register[OF inv rect free, where now = now]) (simp_all add: w')
  qed
qed

lemma harvest_tile_cases:
  "harvest_tile a b R w d = w \<or>
   (\<exists>r. sqrt (real_of_int (fst d * fst d + snd d * snd d)) \<le> real_of_int R \<and>
        plants w (a + fst d, b + snd d) = Some r \<and> harvestable (objs w r) \<and>
        harvest_tile a b R w d =
          w\<lparr>plants := remove_tiles (get_occupied_tiles (objs w r)) (plants w),
            player := (player w)\<lparr>inventory :=
                        add_item (inventory (player w)) (name (plant_type (objs w r))) 1\<rparr>\<rparr>)"
  by (auto simp: harvest_tile_def Let_def split: option.splits)

lemma field_inv_remove:
  assumes inv: "field_inv w" and live: "plants w c = Some r"
    and w': "plants w' = remove_tiles (get_occupied_tiles (objs w r)) (plants w)"
      "objs w' = objs w" "next_id w' = next_id w" "shop w' = shop w"
  shows "field_inv w'"
proof (rule field_invI)
  let ?ts = "get_occupied_tiles (objs w r)"
  fix t q assume "plants w' t = Some q"
  then have h: "(if t \<in> set ?ts then None else plants w t) = Some q"
    by (simp only: w'(1) remove_tiles_apply)
  then have tn: "t \<notin> set ?ts" and pt: "plants w t = Some q"
    by (auto split: if_splits)
  note lq = field_inv_live[OF inv pt]
  note lr = field_inv_live[OF inv live]
  have qr: "q \<noteq> r" using lq(2) tn by auto
  have "plants w' u = Some q" if u: "u \<in> set (get_occupied_tiles (objs w q))" for u
  proof -
    have pu: "plants w u = Some q" using lq(3) u by blast
    have "u \<notin> set ?ts"
    proof
      assume "u \<in> set ?ts"
      then have "plants w u = Some r" using lr(3) by blast
      then show False using pu qr by simp
    qed
    then show ?thesis using pu by (simp add: w'(1) remove_tiles_apply)
  qed
  then show "q < next_id w' \<and> t \<in> set (get_occupied_tiles (objs w' q)) \<and>
        (\<forall>u \<in> set (get_occupied_tiles (objs w' q)). plants w' u = Some q)"
    using lq(1,2) by (simp add: w'(2,3))
next
  fix n p assume "map_of (get_all_plant_types (shop w')) n = Some p"
  then show "shape p = ''rectangle''" using field_inv_shop[OF inv] by (simp only: w'(4))
qed

lemma field_inv_harvest_tile:
  assumes inv: "field_inv w"
  shows "field_inv (harvest_tile a b R w d)"
proof -
  from harvest_tile_cases[of a b R w d] show ?thesis
  proof (elim disjE exE conjE)
    assume "harvest_tile a b R w d = w"
    then show ?thesis using inv by simp
  next
    fix r
    assume live: "plants w (a + fst d, b + snd d) = Some r"
      and eq: "harvest_tile a b R w d =
          w\<lparr>plants := remove_tiles (get_occupied_tiles (objs w r)) (plants w),
            player := (player w)\<lparr>inventory :=
                        add_item (inventory (player w)) (name (plant_type (objs w r))) 1\<rparr>\<rparr>"
    show ?thesis
      by (rule field_inv_remove[OF inv live]) (simp_all add: eq)
  qed
qed

lemma field_inv_harvest_fold:
  "field_inv w \<Longrightarrow> field_inv (foldl (harvest_tile a b R) w ds)"
  by (induction ds arbitrary: w) (simp_all add: field_inv_harvest_tile)

lemma field_inv_harvesting:
  assumes "field_inv w" "handle_harvesting w = Inr w'"
  shows "field_inv w'"
proof (cases "get_harvest_range (player w)")
  case (Inl e)
  then show ?thesis using assms(2) by (simp add: handle_harvesting_def Let_def)
next
  case (Inr R)
  then have "w' = foldl (harvest_tile (fst (get_tile_position (player w)))
                  (snd (get_tile_position (player w))) R) w (harvest_offsets R)"
    using assms(2) by (simp add: handle_harvesting_def Let_def)
  then show ?thesis using assms(1) by (simp add: field_inv_harvest_fold)
qed

lemma reachable_field_inv: "reachable w \<Longrightarrow> field_inv w"
proof (induction rule: reachable.induct)
  case (start noise rnd)
  show ?case by (rule field_inv_start)
next
  case (plant w shuffle now w')
  then show ?case by (blast intro: field_inv_planting)
next
  case (harvest w w')
  then show ?case by (blast intro: field_inv_harvesting)
next
  case (grow w t r now wm fm tt p')
  then show ?case by (blast intro: field_inv_grow)
next
  case (act w p)
  then show ?case by (blast intro: field_inv_act)
qed

text \<open>
  Claim C1. In every world the program can reach from the initial, empty field by
  planting, harvesting, growth and changes of the player, every tile of \<open>plants\<close> maps
  to one plant, whose occupied tiles include that tile, and the footprints of two
  different live plants share no tile.
\<close>

theorem occupancy_exclusive:
  assumes "reachable w"
  shows "(\<forall>t r. plants w t = Some r \<longrightarrow> t \<in> set (get_occupied_tiles (objs w r))) \<and>
         (\<forall>t1 t2 r1 r2. plants w t1 = Some r1 \<and> plants w t2 = Some r2 \<and> r1 \<noteq> r2 \<longrightarrow>
            set (get_occupied_tiles (objs w r1)) \<inter> set (get_occupied_tiles (objs w r2)) = {})"
proof -
  have inv: "field_inv w" using assms by (rule reachable_field_inv)
  have "set (get_occupied_tiles (objs w r1)) \<inter> set (get_occupied_tiles (objs w r2)) = {}"
    if h: "plants w t1 = Some r1" "plants w t2 = Some r2" "r1 \<noteq> r2" for t1 t2 r1 r2
  proof (rule ccontr)
    assume "set (get_occupied_tiles (objs w r1)) \<inter> set (get_occupied_tiles (objs w r2)) \<noteq> {}"
    then obtain u where "u \<in> set (get_occupied_tiles (objs w r1))"
      "u \<in> set (get_occupied_tiles (objs w r2))" by blast
    then have "plants w u = Some r1" "plants w u = Some r2"
      using field_inv_live(3)[OF inv h(1)] field_inv_live(3)[OF inv h(2)] by blast+
    then show False using h(3) by simp
  qed
  then show ?thesis using field_inv_live(2)[OF inv] by blast
qed

subsection \<open>Harvesting\<close>

lemma dict_get0_update:
  "dict_get0 (AList.update k v d) n = (if n = k then v else dict_get0 d n)"
  by (simp add: dict_get0_def update_conv')

lemma harvest_tile_cases':
  "harvest_tile a b R w d = w \<or>
   (\<exists>r. offset_in_circle d R \<and>
        plants w (a + fst d, b + snd d) = Some r \<and> harvestable (objs w r) \<and>
        harvest_tile a b R w d =
          w\<lparr>plants := remove_tiles (get_occupied_tiles (objs w r)) (plants w),
            player := (player w)\<lparr>inventory :=
                        add_item (inventory (player w)) (name (plant_type (objs w r))) 1\<rparr>\<rparr>)"
  unfolding offset_in_circle_def by (rule harvest_tile_cases)

lemma scan_hits_iff:
  "q \<in> scan_hits w a b R ds \<longleftrightarrow>
     harvestable (objs w q) \<and>
     (\<exists>e \<in> set ds. offset_in_circle e R \<and> plants w (a + fst e, b + snd e) = Some q)"
  by (simp add: scan_hits_def)

lemma finite_scan_hits: "finite (scan_hits w a b R ds)"
proof -
  have "scan_hits w a b R ds \<subseteq> (\<lambda>d. the (plants w (a + fst d, b + snd d))) ` set ds"
    by (force simp: scan_hits_iff)
  then show ?thesis by (rule finite_subset) simp
qed

lemma scan_hits_Nil: "scan_hits w a b R [] = {}"
  by (simp add: scan_hits_def)

lemma harvest_fold:
  assumes "field_inv w"
  shows "objs (foldl (harvest_tile a b R) w ds) = objs w \<and>
     (\<forall>t. plants (foldl (harvest_tile a b R) w ds) t =
        (case plants w t of None \<Rightarrow> None
         | Some r \<Rightarrow> if r \<in> scan_hits w a b R ds then None else Some r)) \<and>
     (\<forall>n. item_count (foldl (harvest_tile a b R) w ds) n =
        item_count w n + int (card {r \<in> scan_hits w a b R ds. name (plant_type (objs w r)) = n}))"
  using assms
proof (induction ds arbitrary: w)
  case Nil
  then show ?case by (auto simp: scan_hits_Nil split: option.splits)
next
  case (Cons d ds)
  let ?w1 = "harvest_tile a b R w d"
  have inv1: "field_inv ?w1" using Cons.prems by (rule field_inv_harvest_tile)
  note IH = Cons.IH[OF inv1]
  from harvest_tile_cases'[of a b R w d] show ?case
  proof (elim disjE exE conjE)
    assume same: "?w1 = w"
    have nohit: "\<not> (offset_in_circle d R \<and>
             plants w (a + fst d, b + snd d) = Some r \<and> harvestable (objs w r))" for r
    proof
      assume h: "offset_in_circle d R \<and>
             plants w (a + fst d, b + snd d) = Some r \<and> harvestable (objs w r)"
      then have "?w1 = w\<lparr>plants := remove_tiles (get_occupied_tiles (objs w r)) (plants w),
            player := (player w)\<lparr>inventory :=
                        add_item (inventory (player w)) (name (plant_type (objs w r))) 1\<rparr>\<rparr>"
        by (simp add: harvest_tile_def Let_def offset_in_circle_def)
      then have "plants ?w1 (a + fst d, b + snd d) = None"
        using field_inv_live(2)[OF Cons.prems, of "(a + fst d, b + snd d)" r] h
        by (simp add: remove_tiles_apply)
      then show False using same h by simp
    qed
    have e0: "scan_hits w a b R (d # ds) = scan_hits w a b R ds"
      using nohit by (auto simp: scan_hits_iff)
    have e1: "foldl (harvest_tile a b R) w (d # ds) = foldl (harvest_tile a b R) w ds"
      by (simp add: same)
    show ?thesis unfolding e0 e1 using IH[unfolded same] .
  next
    fix r
    assume circ: "offset_in_circle d R"
      and live: "plants w (a + fst d, b + snd d) = Some r"
      and hv: "harvestable (objs w r)"
      and eq: "?w1 = w\<lparr>plants := remove_tiles (get_occupied_tiles (objs w r)) (plants w),
            player := (player w)\<lparr>inventory :=
                        add_item (inventory (player w)) (name (plant_type (objs w r))) 1\<rparr>\<rparr>"
    note lr = field_inv_live[OF Cons.prems live]
    have o1: "objs ?w1 = objs w" by (simp add: eq)
    have p1: "plants ?w1 t = (case plants w t of None \<Rightarrow> None
                | Some q \<Rightarrow> if q = r then None else Some q)" for t
    proof (cases "plants w t")
      case None
      then show ?thesis by (simp add: eq remove_tiles_apply)
    next
      case (Some q)
      have "(t \<in> set (get_occupied_tiles (objs w r))) = (q = r)"
        using lr(3)[of t] field_inv_live(2)[OF Cons.prems Some] Some by auto
      then show ?thesis using Some by (simp add: eq remove_tiles_apply)
    qed
    have i1: "item_count ?w1 n = item_count w n + (if n = name (plant_type (objs w r)) then 1 else 0)" for n
      by (simp add: eq item_count_def add_item_def dict_get0_update)
    have rn: "r \<notin> scan_hits ?w1 a b R ds"
      by (auto simp: scan_hits_iff p1 split: option.splits if_splits)
    have hits: "scan_hits w a b R (d # ds) = insert r (scan_hits ?w1 a b R ds)"
    proof (intro set_eqI iffI)
      fix q assume q: "q \<in> scan_hits w a b R (d # ds)"
      show "q \<in> insert r (scan_hits ?w1 a b R ds)"
      proof (cases "q = r")
        case True
        then show ?thesis by simp
      next
        case False
        from q obtain e where e: "e \<in> set (d # ds)"
          "offset_in_circle e R"
          "plants w (a + fst e, b + snd e) = Some q" and hq: "harvestable (objs w q)"
          unfolding scan_hits_iff by blast
        have "e \<noteq> d" using e(3) live False by auto
        then have "e \<in> set ds" using e(1) by simp
        moreover have "plants ?w1 (a + fst e, b + snd e) = Some q"
          using e(3) False by (simp add: p1)
        ultimately have "q \<in> scan_hits ?w1 a b R ds"
          using e(2) hq unfolding scan_hits_iff o1 by blast
        then show ?thesis by simp
      qed
    next
      fix q assume q: "q \<in> insert r (scan_hits ?w1 a b R ds)"
      show "q \<in> scan_hits w a b R (d # ds)"
      proof (cases "q = r")
        case True
        then show ?thesis using circ live hv unfolding scan_hits_iff by auto
      next
        case False
        with q have "q \<in> scan_hits ?w1 a b R ds" by simp
        then obtain e where e: "e \<in> set ds"
          "offset_in_circle e R"
          "plants ?w1 (a + fst e, b + snd e) = Some q" and hq: "harvestable (objs w q)"
          unfolding scan_hits_iff o1 by blast
        have "plants w (a + fst e, b + snd e) = Some q"
          using e(3) by (auto simp: p1 split: option.splits if_splits)
        then show ?thesis using e(1,2) hq unfolding scan_hits_iff by auto
      qed
    qed
    have pl: "plants (foldl (harvest_tile a b R) w (d # ds)) t =
        (case plants w t of None \<Rightarrow> None
         | Some q \<Rightarrow> if q \<in> scan_hits w a b R (d # ds) then None else Some q)" for t
    proof -
      have IHp: "plants (foldl (harvest_tile a b R) ?w1 ds) t =
          (case plants ?w1 t of None \<Rightarrow> None
           | Some q \<Rightarrow> if q \<in> scan_hits ?w1 a b R ds then None else Some q)"
        using IH by blast
      show ?thesis
      proof (cases "plants w t")
        case None
        then have "plants ?w1 t = None" by (simp add: p1)
        then show ?thesis using None IHp by simp
      next
        case (Some q)
        show ?thesis
        proof (cases "q = r")
          case True
          then have "plants ?w1 t = None" using Some by (simp add: p1)
          then show ?thesis using Some True IHp by (simp add: hits)
        next
          case False
          then have "plants ?w1 t = Some q" using Some by (simp add: p1)
          then show ?thesis using Some False IHp by (simp add: hits)
        qed
      qed
    qed
    have cnt: "item_count (foldl (harvest_tile a b R) w (d # ds)) n =
        item_count w n + int (card {q \<in> scan_hits w a b R (d # ds). name (plant_type (objs w q)) = n})"
      for n
    proof -
      let ?H = "scan_hits ?w1 a b R ds"
      have fin: "finite {q \<in> ?H. name (plant_type (objs w q)) = n}"
        using finite_scan_hits by simp
      have "{q \<in> insert r ?H. name (plant_type (objs w q)) = n} =
              (if name (plant_type (objs w r)) = n
               then insert r {q \<in> ?H. name (plant_type (objs w q)) = n}
               else {q \<in> ?H. name (plant_type (objs w q)) = n})"
        by auto
      then have "int (card {q \<in> insert r ?H. name (plant_type (objs w q)) = n}) =
              int (card {q \<in> ?H. name (plant_type (objs w q)) = n}) +
              (if n = name (plant_type (objs w r)) then 1 else 0)"
        using fin rn by auto
      moreover have "item_count (foldl (harvest_tile a b R) w (d # ds)) n =
          item_count ?w1 n + int (card {q \<in> ?H. name (plant_type (objs w q)) = n})"
        using IH by (simp add: o1)
      ultimately show ?thesis by (simp add: hits i1)
    qed
    have "objs (foldl (harvest_tile a b R) w (d # ds)) = objs w"
      using IH by (simp add: o1)
    then show ?thesis using pl cnt by blast
  qed
qed

lemma sqrt_bound_abs:
  assumes "sqrt (real_of_int (dx * dx + dy * dy)) \<le> real_of_int R"
  shows "\<bar>dx\<bar> \<le> R"
proof -
  have "real_of_int (dx * dx) \<le> real_of_int (dx * dx + dy * dy)" by simp
  then have "sqrt (real_of_int (dx * dx)) \<le> sqrt (real_of_int (dx * dx + dy * dy))"
    by (simp only: real_sqrt_le_iff)
  moreover have "sqrt (real_of_int (dx * dx)) = \<bar>real_of_int dx\<bar>" by simp
  ultimately have "\<bar>real_of_int dx\<bar> \<le> real_of_int R" using assms by linarith
  then show ?thesis by linarith
qed

lemma set_harvest_offsets:
  "set (harvest_offsets R) = {d. - R \<le> fst d \<and> fst d \<le> R \<and> - R \<le> snd d \<and> snd d \<le> R}"
  by (auto simp: harvest_offsets_def set_py_range2)

lemma offset_in_circle_offsets:
  assumes "offset_in_circle d R"
  shows "d \<in> set (harvest_offsets R)"
proof -
  have 1: "\<bar>fst d\<bar> \<le> R" using assms unfolding offset_in_circle_def by (rule sqrt_bound_abs)
  have "sqrt (real_of_int (snd d * snd d + fst d * fst d)) \<le> real_of_int R"
    using assms unfolding offset_in_circle_def by (simp add: add.commute)
  then have 2: "\<bar>snd d\<bar> \<le> R" by (rule sqrt_bound_abs)
  show ?thesis using 1 2 by (auto simp: set_harvest_offsets)
qed

lemma scan_hits_harvested:
  assumes inv: "field_inv w"
  shows "scan_hits w a b R (harvest_offsets R) = harvested w a b R"
proof (intro set_eqI iffI)
  fix r assume "r \<in> scan_hits w a b R (harvest_offsets R)"
  then obtain e where hv: "harvestable (objs w r)" and e: "offset_in_circle e R"
    "plants w (a + fst e, b + snd e) = Some r"
    unfolding scan_hits_iff by blast
  have "(a + fst e, b + snd e) \<in> set (get_occupied_tiles (objs w r))"
    using field_inv_live(2)[OF inv e(2)] .
  moreover have "within_harvest_range a b R (a + fst e, b + snd e)"
    using e(1) by (simp add: within_harvest_range_def offset_in_circle_def)
  moreover have "r \<in> ran (plants w)" using e(2) by (auto simp: ran_def)
  ultimately show "r \<in> harvested w a b R" using hv unfolding harvested_def by blast
next
  fix r assume "r \<in> harvested w a b R"
  then obtain t where ran: "r \<in> ran (plants w)" and hv: "harvestable (objs w r)"
    and t: "t \<in> set (get_occupied_tiles (objs w r))" "within_harvest_range a b R t"
    unfolding harvested_def by blast
  from ran obtain t0 where t0: "plants w t0 = Some r" by (auto simp: ran_def)
  have pt: "plants w t = Some r" using field_inv_live(3)[OF inv t0 t(1)] .
  define e where "e = (fst t - a, snd t - b)"
  have c: "offset_in_circle e R"
    using t(2) by (simp add: within_harvest_range_def offset_in_circle_def e_def)
  have "e \<in> set (harvest_offsets R)" using c by (rule offset_in_circle_offsets)
  moreover have "plants w (a + fst e, b + snd e) = Some r" using pt by (simp add: e_def)
  ultimately show "r \<in> scan_hits w a b R (harvest_offsets R)"
    using hv c unfolding scan_hits_iff by blast
qed

text \<open>
  Claim C4. In every reachable world, a harvest with the player on tile \<open>(a, b)\<close> and
  harvest range \<open>R\<close> returns a world in which exactly the tiles of the plants in
  \<open>harvested w a b R\<close> (live, harvestable, with a footprint tile at Euclidean distance
  at most \<open>R\<close>) are cleared, every footprint tile of such a plant is free, and for each
  item name the count has grown by the number of harvested plants of that name: one unit
  for each plant, however many of its tiles lie in range.
\<close>

theorem harvest_scan_complete:
  assumes "reachable w" "get_harvest_range (player w) = Inr R"
    "get_tile_position (player w) = (a, b)"
  shows "\<exists>w'. handle_harvesting w = Inr w' \<and>
     (\<forall>t. plants w' t =
        (case plants w t of None \<Rightarrow> None
         | Some r \<Rightarrow> if r \<in> harvested w a b R then None else Some r)) \<and>
     (\<forall>r \<in> harvested w a b R. \<forall>t \<in> set (get_occupied_tiles (objs w r)). plants w' t = None) \<and>
     (\<forall>n. item_count w' n =
        item_count w n + int (card {r \<in> harvested w a b R. name (plant_type (objs w r)) = n}))"
proof -
  have inv: "field_inv w" using assms(1) by (rule reachable_field_inv)
  let ?w' = "foldl (harvest_tile a b R) w (harvest_offsets R)"
  have eq: "handle_harvesting w = Inr ?w'"
    by (simp add: handle_harvesting_def assms(2,3))
  note f = harvest_fold[OF inv, of a b R "harvest_offsets R", unfolded scan_hits_harvested[OF inv]]
  have pl: "plants ?w' t =
        (case plants w t of None \<Rightarrow> None
         | Some r \<Rightarrow> if r \<in> harvested w a b R then None else Some r)" for t
    using f by blast
  have cnt: "item_count ?w' n =
        item_count w n + int (card {r \<in> harvested w a b R. name (plant_type (objs w r)) = n})" for n
    using f by blast
  have gone: "plants ?w' t = None"
    if r: "r \<in> harvested w a b R" and t: "t \<in> set (get_occupied_tiles (objs w r))" for r t
  proof -
    from r obtain t0 where "plants w t0 = Some r" by (auto simp: harvested_def ran_def)
    then have "plants w t = Some r" using field_inv_live(3)[OF inv _ t] by blast
    then show ?thesis using r by (simp add: pl)
  qed
  show ?thesis using eq pl cnt gone by blast
qed

subsection \<open>An example run\<close>

lemma catalogue_radish:
  "map_of (get_all_plant_types (Shop_init (\<lambda>i. 0))) ''Radish'' = Some radish"
  by code_simp

lemma find_planting_spot_here:
  assumes "get_planting_range (player w) = Inr R" "0 \<le> R"
    "can_plant_at w a b sz = Inr True"
  shows "find_planting_spot (\<lambda>xs. xs) w a b sz = Inr (Some (a, b))"
proof -
  have "py_range (R + 1) = 0 # [0 + 1..R]"
    unfolding py_range_def using assms(2) by (simp add: upto_rec1)
  then show ?thesis
    by (simp add: find_planting_spot_def assms(1,3) find_spot_within_def ring_positions_def)
qed

lemma reachable_example: "reachable example_field"
proof -
  let ?w0 = "GameWorld_init (\<lambda>x y. 0) (\<lambda>i. 0)"
  let ?p1 = "(Player_init 960 960)\<lparr>inventory := \<lparr>seeds = [(''Radish'', 1)], items = []\<rparr>\<rparr>"
  let ?w1 = "?w0\<lparr>player := ?p1\<rparr>"
  let ?w2 = "example_field\<lparr>objs := (\<lambda>r. no_plant)(0 := Plant_init radish 20 20 0)\<rparr>"
  have r1: "reachable ?w1" by (rule reachable.act) (rule reachable.start)
  have m: "world_map ?w1 = Map_init (\<lambda>x y. 0)" by (simp add: GameWorld_init_def)
  have "can_plant_at ?w1 20 20 (1, 1) =
          Inr (\<forall>c \<in> set (box_tiles 20 20 (1, 1)). valid_tile (\<lambda>x y. 0) ?w1 c)"
    by (rule can_plant_at_generated[OF m])
  also have "(\<forall>c \<in> set (box_tiles 20 20 (1, 1)). valid_tile (\<lambda>x y. 0) ?w1 c) = True"
    by (simp add: box_tiles_def py_range_def valid_tile_def generate_tile_def GameWorld_init_def
        MAP_WIDTH_def MAP_HEIGHT_def)
  finally have c: "can_plant_at ?w1 20 20 (1, 1) = Inr True" .
  have g: "get_planting_range (player ?w1) = Inr 2"
    by (simp add: get_planting_range_def Player_init_def py_index_def)
  have f: "find_planting_spot (\<lambda>xs. xs) ?w1 20 20 (1, 1) = Inr (Some (20, 20))"
    by (rule find_planting_spot_here[OF g _ c]) simp
  have pos: "get_tile_position ?p1 = (20, 20)"
    by (simp add: get_tile_position_def Player_init_def TILE_SIZE_def)
  have cat: "map_of (get_all_plant_types (shop ?w0)) ''Radish'' = Some radish"
    using catalogue_radish by (simp add: GameWorld_init_def)
  have sz: "size_wh radish = (1, 1)" by (simp add: radish_def mk_PlantType_def)
  have tiles: "get_occupied_tiles (Plant_init radish 20 20 0) = [(20, 20)]"
    by (simp add: get_occupied_tiles_def Plant_init_def radish_def mk_PlantType_def py_range_def)
  let ?e = "?w1\<lparr>objs := (objs ?w1)(next_id ?w1 := Plant_init radish 20 20 0),
                next_id := Suc (next_id ?w1),
                plants := register_tiles [(20, 20)] (next_id ?w1) (plants ?w1),
                player := (player ?w1)\<lparr>inventory :=
                            snd (use_seed (inventory (player ?w1)) ''Radish'')\<rparr>\<rparr>"
  have hp1: "handle_planting (\<lambda>xs. xs) 0 ?w1 = Inr ?e"
    by (simp add: handle_planting_def pos cat sz f tiles Let_def)
  have e: "?e = ?w2"
    by (simp add: example_field_def GameWorld_init_def Player_init_def Inventory_init_def
        register_tiles_def use_seed_def dict_get0_def)
  have hp: "handle_planting (\<lambda>xs. xs) 0 ?w1 = Inr ?w2"
    using hp1 e by simp
  have r2: "reachable ?w2"
    by (rule reachable.plant[OF r1 _ hp]) simp
  have up: "Plant_update (objs ?w2 0) 10 1 1 ''soil'' = Inr ripe_radish"
    by (simp add: Plant_update_def Plant_init_def radish_def mk_PlantType_def Let_def
        ripe_radish_def)
  have pl: "plants ?w2 (20, 20) = Some 0" by (simp add: example_field_def)
  have "reachable (?w2\<lparr>objs := (objs ?w2)(0 := ripe_radish)\<rparr>)"
    by (rule reachable.grow[OF r2 pl up])
  moreover have "?w2\<lparr>objs := (objs ?w2)(0 := ripe_radish)\<rparr> = example_field"
    by (simp add: example_field_def)
  ultimately show ?thesis by simp
qed

theorem occupancy_exclusive_witness:
  "plants example_field (20, 20) = Some 0 \<and>
   (20, 20) \<in> set (get_occupied_tiles (objs example_field 0))"
proof -
  have p: "plants example_field (20, 20) = Some 0" by (simp add: example_field_def)
  from occupancy_exclusive[OF reachable_example] p show ?thesis by blast
qed

theorem harvest_scan_complete_witness:
  "\<exists>w'. handle_harvesting example_field = Inr w' \<and> plants w' (20, 20) = None \<and>
        item_count example_field ''Radish'' = 0 \<and> item_count w' ''Radish'' = 1"
proof -
  have g: "get_harvest_range (player example_field) = Inr 1"
    by (simp add: get_harvest_range_def example_field_def Player_init_def py_index_def)
  have pos: "get_tile_position (player example_field) = (20, 20)"
    by (simp add: get_tile_position_def example_field_def Player_init_def TILE_SIZE_def)
  have tiles: "get_occupied_tiles (objs example_field 0) = [(20, 20)]"
    by (simp add: example_field_def ripe_radish_def get_occupied_tiles_def Plant_init_def
        radish_def mk_PlantType_def py_range_def)
  have ran: "ran (plants example_field) = {0}" by (simp add: example_field_def)
  have hv: "harvestable (objs example_field 0)"
    by (simp add: example_field_def ripe_radish_def)
  have h: "harvested example_field 20 20 1 = {0}"
    by (auto simp: harvested_def ran tiles hv within_harvest_range_def)
  have nm: "name (plant_type (objs example_field 0)) = ''Radish''"
    by (simp add: example_field_def ripe_radish_def Plant_init_def radish_def mk_PlantType_def)
  have c: "{r \<in> harvested example_field 20 20 1.
              name (plant_type (objs example_field r)) = ''Radish''} = {0}"
    unfolding h using nm by auto
  have i0: "item_count example_field ''Radish'' = 0"
    by (simp add: item_count_def example_field_def Player_init_def Inventory_init_def dict_get0_def)
  from harvest_scan_complete[OF reachable_example g pos] obtain w' where
    w': "handle_harvesting example_field = Inr w'"
    "\<forall>r \<in> harvested example_field 20 20 1.
        \<forall>t \<in> set (get_occupied_tiles (objs example_field r)). plants w' t = None"
    "\<forall>n. item_count w' n = item_count example_field n +
        int (card {r \<in> harvested example_field 20 20 1.
                   name (plant_type (objs example_field r)) = n})"
    by blast
  have "plants w' (20, 20) = None" using w'(2) by (simp add: h tiles)
  moreover have "item_count w' ''Radish'' = 1"
  proof -
    have "item_count w' ''Radish'' = item_count example_field ''Radish'' +
        int (card {r \<in> harvested example_field 20 20 1.
                   name (plant_type (objs example_field r)) = ''Radish''})"
      using w'(3) by blast
    then show ?thesis unfolding c i0 by simp
  qed
  ultimately show ?thesis using w'(1) i0 by blast
qed

end
